theory Spec2Isabelle
  imports Complex_Main
begin

section \<open>Python values used by the module\<close>

text \<open>
  The module \<^verbatim>\<open>tensorflow_gan/examples/cyclegan/generator.py\<close> builds a network by
  calling the tensor framework. Its own control flow is small: two divisibility checks,
  a few list reads, one loop and one chain of string comparisons. Exceptions are values.
\<close>

datatype error = ValueError string | IndexError | KeyError string

text \<open>An argument that is either one integer or a list/tuple of integers.\<close>

datatype int_or_seq = Scalar int | Seq "int list"

text \<open>A dimension of a static shape: \<open>None\<close> is Python's \<open>None\<close> (not known statically).\<close>

type_synonym dim = "nat option"

type_synonym static_shape = "dim list"

text \<open>\<open>xs[i]\<close> for a literal index \<open>i \<ge> 0\<close>: raises \<open>IndexError\<close> out of range.\<close>

definition getitem :: "'a list \<Rightarrow> nat \<Rightarrow> error + 'a" where
  "getitem xs i = (if i < length xs then Inr (xs ! i) else Inl IndexError)"

text \<open>Truth value of an optional integer: \<open>None\<close> and \<open>0\<close> are false.\<close>

definition truthy :: "dim \<Rightarrow> bool" where
  "truthy d = (case d of None \<Rightarrow> False | Some n \<Rightarrow> n \<noteq> 0)"

text \<open>\<open>'%d' % n\<close> and \<open>'{}'.format(n)\<close> for \<open>n \<ge> 0\<close>: the decimal digits of \<open>n\<close>.\<close>

definition digit_char :: "nat \<Rightarrow> char" where
  "digit_char d = ''0123456789'' ! d"

function decimal :: "nat \<Rightarrow> string" where
  "decimal n = (if n < 10 then [digit_char n] else decimal (n div 10) @ [digit_char (n mod 10)])"
  by pat_completeness auto
termination
  by (relation "measure id") auto

section \<open>The framework: tensors, the graph and the variable scope\<close>

text \<open>
  A tensor is the symbolic result of a framework call: the term records which call made
  it and from which arguments. The constructors are exactly the framework calls that the
  module makes. Calls that create variables (the two convolutions and the normalization)
  also record the variable scope in force when they were made.
\<close>

datatype resize_method = NEAREST_NEIGHBOR | BILINEAR

record layer_args =
  l_filters :: "int option"
  l_kernel_size :: int_or_seq
  l_strides :: int_or_seq
  l_padding :: string
  l_kernel_initializer :: "(real \<times> real) option"
  l_use_bias :: bool

datatype tensor =
    Input static_shape
  | Shape tensor
  | GetItem tensor nat
  | ScalarMul int tensor
  | Resize tensor tensor tensor resize_method
  | Pad tensor "(int \<times> int) list" string
  | Conv2D "string list" tensor layer_args
  | Conv2DTranspose "string list" tensor layer_args
  | InstanceNorm "string list" tensor bool bool real
  | Relu tensor
  | Crop11 tensor
  | Add tensor tensor
  | Reshape tensor shape_arg
  | Tanh tensor
  | MulScalar tensor real
and shape_arg =
    StaticList static_shape
  | ShapeTensor tensor

text \<open>
  \<^item> \<open>Input s\<close>: a tensor handed to the module from outside, of static shape \<open>s\<close>;
  \<^item> \<open>Shape t\<close>: \<^verbatim>\<open>tf.shape(input=t)\<close>, the run-time shape as a vector;
  \<^item> \<open>GetItem v i\<close>: \<^verbatim>\<open>v[i]\<close> on such a vector; \<open>ScalarMul k v\<close>: \<^verbatim>\<open>k * v\<close>;
  \<^item> \<open>Resize t h w m\<close>: \<^verbatim>\<open>tf.image.resize(t, [h, w], method=m)\<close>;
  \<^item> \<open>Pad t p mode\<close>: \<^verbatim>\<open>tf.pad(tensor=t, paddings=p, mode=mode)\<close>;
  \<^item> \<open>Conv2D sc t a\<close>: \<^verbatim>\<open>tf.layers.conv2d\<close>; \<open>Conv2DTranspose sc t a\<close>:
    \<^verbatim>\<open>tf.layers.conv2d_transpose\<close>;
  \<^item> \<open>InstanceNorm sc t center scale epsilon\<close>: \<^verbatim>\<open>tfgan.features.instance_norm\<close>;
  \<^item> \<open>Relu t\<close>: \<^verbatim>\<open>tf.nn.relu(t)\<close>; \<open>Crop11 t\<close>: \<^verbatim>\<open>t[:, 1:, 1:, :]\<close>;
  \<^item> \<open>Add a b\<close>: \<^verbatim>\<open>a + b\<close>; \<open>Tanh t\<close>: \<^verbatim>\<open>tf.tanh(t)\<close>; \<open>MulScalar t c\<close>: \<^verbatim>\<open>t * c\<close>;
  \<^item> \<open>Reshape t s\<close>: \<^verbatim>\<open>tf.reshape(t, s)\<close>, where \<open>s\<close> is a Python list or a tensor.

  What the framework computes inside a call (the arithmetic of a convolution or of a
  normalization, its floating point, its variables) is not part of the module and is not
  modelled: a call is known by its name and its arguments. Neither are the framework's
  own checks of its arguments: a call is modelled where the framework accepts its
  arguments, and adds its node. The errors of the model are those that the module raises
  itself, those of Python's list indexing and the one of \<^verbatim>\<open>as_list\<close>. A statement
  that a function returns carries the conditions on shapes, kernel sizes, strides and
  filters under which the framework accepts every call.
\<close>

text \<open>
  The framework keeps two pieces of state that the module changes: the stack of variable
  scopes, and the graph, to which every call adds its result.
\<close>

record tf_state =
  var_scope :: "string list"
  graph_ops :: "tensor list"

definition add_op :: "tensor \<Rightarrow> tf_state \<Rightarrow> tensor \<times> tf_state" where
  "add_op t g = (t, g\<lparr>graph_ops := graph_ops g @ [t]\<rparr>)"

text \<open>
  \<^verbatim>\<open>with tf.variable_scope(name): body\<close>. The scope is left again when the body ends,
  also when it ends by an exception.
\<close>

definition variable_scope :: "string \<Rightarrow> (tf_state \<Rightarrow> 'a \<times> tf_state) \<Rightarrow> tf_state \<Rightarrow> 'a \<times> tf_state" where
  "variable_scope name body g =
     (let (r, g') = body (g\<lparr>var_scope := var_scope g @ [name]\<rparr>)
      in (r, g'\<lparr>var_scope := var_scope g\<rparr>))"

definition tf_shape :: "tensor \<Rightarrow> tf_state \<Rightarrow> tensor \<times> tf_state" where
  "tf_shape t = add_op (Shape t)"

definition tensor_getitem :: "tensor \<Rightarrow> nat \<Rightarrow> tf_state \<Rightarrow> tensor \<times> tf_state" where
  "tensor_getitem v i = add_op (GetItem v i)"

definition int_times_tensor :: "int \<Rightarrow> tensor \<Rightarrow> tf_state \<Rightarrow> tensor \<times> tf_state" where
  "int_times_tensor k v = add_op (ScalarMul k v)"

definition tf_image_resize ::
  "tensor \<Rightarrow> tensor \<Rightarrow> tensor \<Rightarrow> resize_method \<Rightarrow> tf_state \<Rightarrow> tensor \<times> tf_state" where
  "tf_image_resize t h w m = add_op (Resize t h w m)"

definition tf_pad :: "tensor \<Rightarrow> (int \<times> int) list \<Rightarrow> string \<Rightarrow> tf_state \<Rightarrow> tensor \<times> tf_state" where
  "tf_pad t paddings mode = add_op (Pad t paddings mode)"

definition tf_layers_conv2d :: "tensor \<Rightarrow> layer_args \<Rightarrow> tf_state \<Rightarrow> tensor \<times> tf_state" where
  "tf_layers_conv2d t a g = add_op (Conv2D (var_scope g) t a) g"

definition tf_layers_conv2d_transpose :: "tensor \<Rightarrow> layer_args \<Rightarrow> tf_state \<Rightarrow> tensor \<times> tf_state" where
  "tf_layers_conv2d_transpose t a g = add_op (Conv2DTranspose (var_scope g) t a) g"

definition tfgan_features_instance_norm ::
  "tensor \<Rightarrow> bool \<Rightarrow> bool \<Rightarrow> real \<Rightarrow> tf_state \<Rightarrow> tensor \<times> tf_state" where
  "tfgan_features_instance_norm t center scale epsilon g =
     add_op (InstanceNorm (var_scope g) t center scale epsilon) g"

definition tf_nn_relu :: "tensor \<Rightarrow> tf_state \<Rightarrow> tensor \<times> tf_state" where
  "tf_nn_relu t = add_op (Relu t)"

definition tensor_crop11 :: "tensor \<Rightarrow> tf_state \<Rightarrow> tensor \<times> tf_state" where
  "tensor_crop11 t = add_op (Crop11 t)"

definition tensor_add :: "tensor \<Rightarrow> tensor \<Rightarrow> tf_state \<Rightarrow> tensor \<times> tf_state" where
  "tensor_add a b = add_op (Add a b)"

definition tf_reshape :: "tensor \<Rightarrow> shape_arg \<Rightarrow> tf_state \<Rightarrow> tensor \<times> tf_state" where
  "tf_reshape t s = add_op (Reshape t s)"

definition tf_tanh :: "tensor \<Rightarrow> tf_state \<Rightarrow> tensor \<times> tf_state" where
  "tf_tanh t = add_op (Tanh t)"

definition tensor_times_float :: "tensor \<Rightarrow> real \<Rightarrow> tf_state \<Rightarrow> tensor \<times> tf_state" where
  "tensor_times_float t c = add_op (MulScalar t c)"

section \<open>Static shapes\<close>

text \<open>
  The module reads the static shape of its input (\<^verbatim>\<open>images.shape\<close>) and its documentation
  promises an output of the input's shape. The static shape of a tensor is computed by
  the framework from the call that made it. The rules below are the framework's
  documented ones for the calls the module makes, for tensors laid out as
  \<open>[batch, height, width, channels]\<close>:
  \<^item> padding adds the two pad widths to each dimension;
  \<^item> a convolution with padding \<open>VALID\<close>, window \<open>k\<close> and stride \<open>s\<close> maps a dimension
    \<open>n \<ge> k\<close> to \<open>(n - k) div s + 1\<close> and sets the channels to the number of filters;
  \<^item> a transposed convolution with padding \<open>valid\<close> maps \<open>n\<close> to \<open>n * s + max (k - s) 0\<close>;
  \<^item> \<^verbatim>\<open>t[:, 1:, 1:, :]\<close> drops one row and one column;
  \<^item> normalization, \<open>relu\<close>, \<open>tanh\<close>, a scalar factor and the sum of two tensors of one
    shape keep the shape;
  \<^item> a reshape has the requested shape, provided the number of elements, where both are
    known, is the same.
  The result is \<open>None\<close> where no static shape is established: the framework refuses the
  call, or the case is outside these rules (broadcasting, a resize to a computed size
  is given unknown height and width).
\<close>

definition fully_defined :: "static_shape \<Rightarrow> bool" where
  "fully_defined s = list_all (\<lambda>d. d \<noteq> None) s"

definition num_elements :: "static_shape \<Rightarrow> nat" where
  "num_elements s = prod_list (map the s)"

definition same_count :: "static_shape \<Rightarrow> static_shape \<Rightarrow> bool" where
  "same_count s s' = (if fully_defined s \<and> fully_defined s' then num_elements s = num_elements s' else True)"

definition pad_dim :: "int \<times> int \<Rightarrow> dim \<Rightarrow> dim option" where
  "pad_dim p d =
     (if fst p < 0 \<or> snd p < 0 then None
      else Some (map_option (\<lambda>n. n + nat (fst p) + nat (snd p)) d))"

definition conv_dim :: "int \<Rightarrow> int \<Rightarrow> dim \<Rightarrow> dim option" where
  "conv_dim k s d =
     (case d of
        None \<Rightarrow> Some None
      | Some n \<Rightarrow> if nat k \<le> n then Some (Some ((n - nat k) div nat s + 1)) else None)"

definition deconv_dim :: "int \<Rightarrow> int \<Rightarrow> dim \<Rightarrow> dim" where
  "deconv_dim k s d = map_option (\<lambda>n. n * nat s + nat (max (k - s) 0)) d"

definition pair_of :: "int_or_seq \<Rightarrow> (int \<times> int) option" where
  "pair_of v = (case v of Scalar k \<Rightarrow> Some (k, k) | Seq [a, b] \<Rightarrow> Some (a, b) | Seq _ \<Rightarrow> None)"

definition valid_layer :: "layer_args \<Rightarrow> (int \<times> int \<times> int \<times> int \<times> nat) option" where
  "valid_layer a =
     (case (pair_of (l_kernel_size a), pair_of (l_strides a), l_filters a) of
        (Some (kh, kw), Some (sh, sw), Some f) \<Rightarrow>
          if 1 \<le> kh \<and> 1 \<le> kw \<and> 1 \<le> sh \<and> 1 \<le> sw \<and> 1 \<le> f
             \<and> (l_padding a = ''VALID'' \<or> l_padding a = ''valid'')
          then Some (kh, kw, sh, sw, nat f) else None
      | _ \<Rightarrow> None)"

definition conv_shape :: "layer_args \<Rightarrow> static_shape \<Rightarrow> static_shape option" where
  "conv_shape a s =
     (case (s, valid_layer a) of
        ([b, h, w, Some c], Some (kh, kw, sh, sw, f)) \<Rightarrow>
          (case (conv_dim kh sh h, conv_dim kw sw w) of
             (Some h', Some w') \<Rightarrow> Some [b, h', w', Some f]
           | _ \<Rightarrow> None)
      | _ \<Rightarrow> None)"

definition deconv_shape :: "layer_args \<Rightarrow> static_shape \<Rightarrow> static_shape option" where
  "deconv_shape a s =
     (case (s, valid_layer a) of
        ([b, h, w, Some c], Some (kh, kw, sh, sw, f)) \<Rightarrow>
          Some [b, deconv_dim kh sh h, deconv_dim kw sw w, Some f]
      | _ \<Rightarrow> None)"

definition pad_shape :: "(int \<times> int) list \<Rightarrow> static_shape \<Rightarrow> static_shape option" where
  "pad_shape p s = (if length p = length s then those (map2 pad_dim p s) else None)"

definition norm_shape :: "static_shape \<Rightarrow> static_shape option" where
  "norm_shape s = (case s of [b, h, w, Some c] \<Rightarrow> Some s | _ \<Rightarrow> None)"

definition crop_shape :: "static_shape \<Rightarrow> static_shape option" where
  "crop_shape s =
     (case s of
        [b, h, w, c] \<Rightarrow> Some [b, map_option (\<lambda>n. n - 1) h, map_option (\<lambda>n. n - 1) w, c]
      | _ \<Rightarrow> None)"

definition resize_shape :: "static_shape \<Rightarrow> static_shape option" where
  "resize_shape s = (case s of [b, h, w, c] \<Rightarrow> Some [b, None, None, c] | _ \<Rightarrow> None)"

fun shape_of :: "tensor \<Rightarrow> static_shape option" where
  "shape_of (Input s) = Some s"
| "shape_of (Shape t) = map_option (\<lambda>s. [Some (length s)]) (shape_of t)"
| "shape_of (GetItem v i) =
     (case shape_of v of Some [Some n] \<Rightarrow> if i < n then Some [] else None | _ \<Rightarrow> None)"
| "shape_of (ScalarMul k v) = shape_of v"
| "shape_of (Resize t h w m) =
     (if shape_of h = Some [] \<and> shape_of w = Some []
      then Option.bind (shape_of t) resize_shape else None)"
| "shape_of (Pad t p mode) = Option.bind (shape_of t) (pad_shape p)"
| "shape_of (Conv2D sc t a) = Option.bind (shape_of t) (conv_shape a)"
| "shape_of (Conv2DTranspose sc t a) = Option.bind (shape_of t) (deconv_shape a)"
| "shape_of (InstanceNorm sc t center scale epsilon) = Option.bind (shape_of t) norm_shape"
| "shape_of (Relu t) = shape_of t"
| "shape_of (Crop11 t) = Option.bind (shape_of t) crop_shape"
| "shape_of (Add a b) = (if shape_of a = shape_of b then shape_of a else None)"
| "shape_of (Tanh t) = shape_of t"
| "shape_of (MulScalar t c) = shape_of t"
| "shape_of (Reshape t (StaticList l)) =
     (case shape_of t of
        Some s \<Rightarrow> if fully_defined l \<and> same_count s l then Some l else None
      | None \<Rightarrow> None)"
| "shape_of (Reshape t (ShapeTensor (Shape u))) =
     (case (shape_of t, shape_of u) of
        (Some s, Some s') \<Rightarrow> if same_count s s' then Some s' else None
      | _ \<Rightarrow> None)"
| "shape_of (Reshape t (ShapeTensor v)) = None"

text \<open>
  \<^verbatim>\<open>t.shape.as_list()\<close>: the static shape as a Python list. The framework raises
  \<open>ValueError\<close> when nothing is known of the shape, not even its rank.
\<close>

definition as_list :: "tensor \<Rightarrow> error + static_shape" where
  "as_list t =
     (case shape_of t of
        Some s \<Rightarrow> Inr s
      | None \<Rightarrow> Inl (ValueError ''as_list() is not defined on an unknown TensorShape.''))"

definition is_fully_defined :: "tensor \<Rightarrow> bool" where
  "is_fully_defined t = (case shape_of t of Some s \<Rightarrow> fully_defined s | None \<Rightarrow> False)"

section \<open>The module\<close>

text \<open>
  Each function of the module is translated line by line. A framework call takes the
  state and returns it with the new tensor added; a \<^verbatim>\<open>with\<close> block is a function of the
  state that returns the variables assigned in it.
\<close>

type_synonym end_points = "string \<rightharpoonup> tensor"

type_synonym upsample_fn =
  "tensor \<Rightarrow> int \<Rightarrow> int list \<Rightarrow> tf_state \<Rightarrow> (error + tensor) \<times> tf_state"

definition instance_norm :: "tensor \<Rightarrow> tf_state \<Rightarrow> tensor \<times> tf_state" where
  "instance_norm x = tfgan_features_instance_norm x True True 0.001"

definition conv2d ::
  "tensor \<Rightarrow> int option \<Rightarrow> int_or_seq \<Rightarrow> int \<Rightarrow> tf_state \<Rightarrow> tensor \<times> tf_state" where
  "conv2d net num_filters kernel_size strides =
     tf_layers_conv2d net
       \<lparr>l_filters = num_filters, l_kernel_size = kernel_size, l_strides = Scalar strides,
        l_padding = ''VALID'', l_kernel_initializer = Some (0, 0.02), l_use_bias = False\<rparr>"

definition cyclegan_upsample ::
  "tensor \<Rightarrow> int \<Rightarrow> int list \<Rightarrow> string \<Rightarrow> string \<Rightarrow> tf_state \<Rightarrow> (error + tensor) \<times> tf_state" where
  "cyclegan_upsample net num_outputs strides method pad_mode g =
     variable_scope ''upconv'' (\<lambda>g.
       let (net_shape, g) = tf_shape net g;
           (height, g) = tensor_getitem net_shape 1 g;
           (width, g) = tensor_getitem net_shape 2 g;
           spatial_pad_1 = [(0, 0), (1, 1), (1, 1), (0, 0)]
       in
       if method = ''nn_upsample_conv'' then
         (case getitem strides 0 of Inl e \<Rightarrow> (Inl e, g) | Inr s0 \<Rightarrow>
           (let (new_height, g) = int_times_tensor s0 height g in
            (case getitem strides 1 of Inl e \<Rightarrow> (Inl e, g) | Inr s1 \<Rightarrow>
              (let (new_width, g) = int_times_tensor s1 width g;
                   (net, g) = tf_image_resize net new_height new_width NEAREST_NEIGHBOR g;
                   (net, g) = tf_pad net spatial_pad_1 pad_mode g;
                   (net, g) = conv2d net (Some num_outputs) (Scalar 3) 1 g;
                   (net, g) = instance_norm net g;
                   (net, g) = tf_nn_relu net g
               in (Inr net, g)))))
       else if method = ''bilinear_upsample_conv'' then
         (case getitem strides 0 of Inl e \<Rightarrow> (Inl e, g) | Inr s0 \<Rightarrow>
           (let (new_height, g) = int_times_tensor s0 height g in
            (case getitem strides 1 of Inl e \<Rightarrow> (Inl e, g) | Inr s1 \<Rightarrow>
              (let (new_width, g) = int_times_tensor s1 width g;
                   (net, g) = tf_image_resize net new_height new_width BILINEAR g;
                   (net, g) = tf_pad net spatial_pad_1 pad_mode g;
                   (net, g) = conv2d net (Some num_outputs) (Scalar 3) 1 g;
                   (net, g) = instance_norm net g;
                   (net, g) = tf_nn_relu net g
               in (Inr net, g)))))
       else if method = ''conv2d_transpose'' then
         (let (net, g) = tf_layers_conv2d_transpose net
                 \<lparr>l_filters = Some num_outputs, l_kernel_size = Seq [3, 3],
                  l_strides = Seq strides, l_padding = ''valid'',
                  l_kernel_initializer = None, l_use_bias = True\<rparr> g;
              (net, g) = tf_nn_relu net g;
              (net, g) = tensor_crop11 net g
          in (Inr net, g))
       else (Inl (ValueError ((''Unknown method: ['' @ method) @ '']'')), g)) g"

text \<open>The function with its default arguments, as the generator's default \<open>upsample_fn\<close>.\<close>

definition cyclegan_upsample_default :: upsample_fn where
  "cyclegan_upsample_default net num_outputs strides =
     cyclegan_upsample net num_outputs strides ''conv2d_transpose'' ''REFLECT''"

definition dynamic_or_static_shape :: "tensor \<Rightarrow> tf_state \<Rightarrow> (error + shape_arg) \<times> tf_state" where
  "dynamic_or_static_shape t g =
     (let (shape, g) = tf_shape t g
      in if is_fully_defined t
         then (case as_list t of Inl e \<Rightarrow> (Inl e, g) | Inr l \<Rightarrow> (Inr (StaticList l), g))
         else (Inr (ShapeTensor shape), g))"

text \<open>The body of the loop over \<open>block_id\<close>, on the loop's variables and the state.\<close>

definition resnet_block ::
  "int \<Rightarrow> int list \<Rightarrow> (int \<times> int) list \<Rightarrow> nat \<Rightarrow>
   (tensor \<times> end_points) \<times> tf_state \<Rightarrow> (tensor \<times> end_points) \<times> tf_state" where
  "resnet_block num_filters kernel_size paddings block_id st =
     (case st of ((net, end_points), g) \<Rightarrow>
        variable_scope (''block_'' @ decimal block_id) (\<lambda>g.
          let (res_net, g) = tf_pad net paddings ''REFLECT'' g;
              (res_net, g) = conv2d res_net (Some (num_filters * 4)) (Seq kernel_size) 1 g;
              (res_net, g) = instance_norm res_net g;
              (res_net, g) = tf_nn_relu res_net g;
              (res_net, g) = tf_pad res_net paddings ''REFLECT'' g;
              (res_net, g) = conv2d res_net (Some (num_filters * 4)) (Seq kernel_size) 1 g;
              (res_net, g) = instance_norm res_net g;
              (net, g) = tensor_add net res_net g;
              end_points = end_points(''resnet_block_'' @ decimal block_id \<mapsto> net)
          in ((net, end_points), g)) g)"

definition cyclegan_generator_resnet ::
  "tensor \<Rightarrow> int \<Rightarrow> int \<Rightarrow> upsample_fn \<Rightarrow> int_or_seq \<Rightarrow> real \<Rightarrow> tf_state \<Rightarrow>
   (error + tensor \<times> end_points) \<times> tf_state" where
  "cyclegan_generator_resnet images num_resnet_blocks num_filters upsample_fn kernel_size
       tanh_linear_slope g =
     (let end_points = Map.empty in
      (case as_list images of Inl e \<Rightarrow> (Inl e, g) | Inr input_size \<Rightarrow>
      (case getitem input_size 1 of Inl e \<Rightarrow> (Inl e, g) | Inr height \<Rightarrow>
      (case getitem input_size 2 of Inl e \<Rightarrow> (Inl e, g) | Inr width \<Rightarrow>
      if truthy height \<and> the height mod 4 \<noteq> 0
      then (Inl (ValueError ''The input height must be a multiple of 4.''), g)
      else if truthy width \<and> the width mod 4 \<noteq> 0
      then (Inl (ValueError ''The input width must be a multiple of 4.''), g)
      else
      (case getitem input_size 3 of Inl e \<Rightarrow> (Inl e, g) | Inr num_outputs \<Rightarrow>
      (let kernel_size = (case kernel_size of Scalar k \<Rightarrow> [k, k] | Seq ks \<Rightarrow> ks) in
      (case getitem kernel_size 0 of Inl e \<Rightarrow> (Inl e, g) | Inr kernel_height \<Rightarrow>
      (case getitem kernel_size 1 of Inl e \<Rightarrow> (Inl e, g) | Inr kernel_width \<Rightarrow>
      (let pad_top = (kernel_height - 1) div 2;
           pad_bottom = kernel_height div 2;
           pad_left = (kernel_width - 1) div 2;
           pad_right = kernel_width div 2;
           paddings = [(0, 0), (pad_top, pad_bottom), (pad_left, pad_right), (0, 0)];
           spatial_pad_3 = [(0, 0), (3, 3), (3, 3), (0, 0)];
           ((net, end_points), g) = variable_scope ''input'' (\<lambda>g.
              let (net, g) = tf_pad images spatial_pad_3 ''REFLECT'' g;
                  (net, g) = conv2d net (Some num_filters) (Scalar 7) 1 g;
                  (net, g) = instance_norm net g;
                  (net, g) = tf_nn_relu net g;
                  end_points = end_points(''encoder_0'' \<mapsto> net)
              in ((net, end_points), g)) g;
           (r, g) = variable_scope ''encoder'' (\<lambda>g.
              let (net, g) = tf_pad net paddings ''REFLECT'' g;
                  (net, g) = conv2d net (Some (num_filters * 2)) (Seq kernel_size) 2 g;
                  (net, g) = instance_norm net g;
                  (net, g) = tf_nn_relu net g;
                  end_points = end_points(''encoder_1'' \<mapsto> net);
                  (net, g) = tf_pad net paddings ''REFLECT'' g;
                  (net, g) = conv2d net (Some (num_filters * 4)) (Seq kernel_size) 2 g;
                  (net, g) = instance_norm net g;
                  (net, g) = tf_nn_relu net g;
                  end_points = end_points(''encoder_2'' \<mapsto> net);
                  ((net, end_points), g) = variable_scope ''residual_blocks'' (\<lambda>g.
                     fold (resnet_block num_filters kernel_size paddings)
                       [0 ..< nat num_resnet_blocks] ((net, end_points), g)) g;
                  (r, g) = variable_scope ''decoder'' (\<lambda>g.
                     (case variable_scope ''decoder1''
                            (upsample_fn net (num_filters * 2) [2, 2]) g of
                        (Inl e, g) \<Rightarrow> (Inl e, g)
                      | (Inr net, g) \<Rightarrow>
                         (let end_points = end_points(''decoder1'' \<mapsto> net) in
                          (case variable_scope ''decoder2''
                                 (upsample_fn net num_filters [2, 2]) g of
                             (Inl e, g) \<Rightarrow> (Inl e, g)
                           | (Inr net, g) \<Rightarrow>
                              (let end_points = end_points(''decoder2'' \<mapsto> net)
                               in (Inr (net, end_points), g)))))) g
              in (case r of Inl e \<Rightarrow> (Inl e, g) | Inr (net, end_points) \<Rightarrow>
                 variable_scope ''output'' (\<lambda>g.
                   let (net, g) = tf_pad net spatial_pad_3 ''REFLECT'' g;
                       (logits, g) = conv2d net (map_option int num_outputs) (Scalar 7) 1 g;
                       (shape, g) = dynamic_or_static_shape images g
                   in (case shape of Inl e \<Rightarrow> (Inl e, g) | Inr shape \<Rightarrow>
                      (let (logits, g) = tf_reshape logits shape g;
                           end_points = end_points(''logits'' \<mapsto> logits);
                           (tanh_logits, g) = tf_tanh logits g;
                           (scaled_logits, g) = tensor_times_float logits tanh_linear_slope g;
                           (predictions, g) = tensor_add tanh_logits scaled_logits g;
                           end_points = end_points(''predictions'' \<mapsto> predictions)
                       in (Inr end_points, g)))) g)) g
       in (case r of Inl e \<Rightarrow> (Inl e, g) | Inr end_points \<Rightarrow>
          (case end_points ''predictions'' of
             None \<Rightarrow> (Inl (KeyError ''predictions''), g)
           | Some predictions \<Rightarrow> (Inr (predictions, end_points), g))))))))))))"

section \<open>The network as terms\<close>

text \<open>
  The tensors and the lists of framework calls that the module produces, written as plain
  terms. They name what the theorems talk about; every one of them is shown below to be
  what the module computes.
\<close>

text \<open>The keyword arguments that \<open>_conv2d\<close> passes on.\<close>

definition conv_args :: "int option \<Rightarrow> int_or_seq \<Rightarrow> int \<Rightarrow> layer_args" where
  "conv_args num_filters kernel_size strides =
     \<lparr>l_filters = num_filters, l_kernel_size = kernel_size, l_strides = Scalar strides,
      l_padding = ''VALID'', l_kernel_initializer = Some (0, 0.02), l_use_bias = False\<rparr>"

text \<open>The keyword arguments of the transposed convolution in \<open>cyclegan_upsample\<close>.\<close>

definition deconv_args :: "int \<Rightarrow> int list \<Rightarrow> layer_args" where
  "deconv_args num_outputs strides =
     \<lparr>l_filters = Some num_outputs, l_kernel_size = Seq [3, 3], l_strides = Seq strides,
      l_padding = ''valid'', l_kernel_initializer = None, l_use_bias = True\<rparr>"

text \<open>Instance normalization as \<open>_instance_norm\<close> asks for it, made in scope \<open>sc\<close>.\<close>

definition normed :: "string list \<Rightarrow> tensor \<Rightarrow> tensor" where
  "normed sc x = InstanceNorm sc x True True 0.001"

text \<open>Reflect padding, then a convolution; then normalization; then \<open>relu\<close>.\<close>

definition pad_conv :: "string list \<Rightarrow> (int \<times> int) list \<Rightarrow> layer_args \<Rightarrow> tensor \<Rightarrow> tensor" where
  "pad_conv sc p a x = Conv2D sc (Pad x p ''REFLECT'') a"

definition pad_conv_norm :: "string list \<Rightarrow> (int \<times> int) list \<Rightarrow> layer_args \<Rightarrow> tensor \<Rightarrow> tensor" where
  "pad_conv_norm sc p a x = normed sc (pad_conv sc p a x)"

definition pad_conv_norm_relu :: "string list \<Rightarrow> (int \<times> int) list \<Rightarrow> layer_args \<Rightarrow> tensor \<Rightarrow> tensor" where
  "pad_conv_norm_relu sc p a x = Relu (pad_conv_norm sc p a x)"

definition pad_conv_ops :: "string list \<Rightarrow> (int \<times> int) list \<Rightarrow> layer_args \<Rightarrow> tensor \<Rightarrow> tensor list" where
  "pad_conv_ops sc p a x = [Pad x p ''REFLECT'', pad_conv sc p a x]"

definition pad_conv_norm_ops :: "string list \<Rightarrow> (int \<times> int) list \<Rightarrow> layer_args \<Rightarrow> tensor \<Rightarrow> tensor list" where
  "pad_conv_norm_ops sc p a x = pad_conv_ops sc p a x @ [pad_conv_norm sc p a x]"

definition pad_conv_norm_relu_ops :: "string list \<Rightarrow> (int \<times> int) list \<Rightarrow> layer_args \<Rightarrow> tensor \<Rightarrow> tensor list" where
  "pad_conv_norm_relu_ops sc p a x = pad_conv_norm_ops sc p a x @ [pad_conv_norm_relu sc p a x]"

text \<open>
  The path \<open>f\<close> of a residual block: reflect-pad, conv2d, instance-norm, ReLU,
  reflect-pad, conv2d, instance-norm.
\<close>

definition residual_path :: "string list \<Rightarrow> (int \<times> int) list \<Rightarrow> layer_args \<Rightarrow> tensor \<Rightarrow> tensor" where
  "residual_path sc p a x = pad_conv_norm sc p a (pad_conv_norm_relu sc p a x)"

definition residual_ops :: "string list \<Rightarrow> (int \<times> int) list \<Rightarrow> layer_args \<Rightarrow> tensor \<Rightarrow> tensor list" where
  "residual_ops sc p a x =
     pad_conv_norm_relu_ops sc p a x @ pad_conv_norm_ops sc p a (pad_conv_norm_relu sc p a x)
       @ [Add x (residual_path sc p a x)]"

text \<open>After \<open>n\<close> residual blocks: the tensor, the calls made, the end points recorded.\<close>

primrec blocks_net :: "string list \<Rightarrow> (int \<times> int) list \<Rightarrow> layer_args \<Rightarrow> nat \<Rightarrow> tensor \<Rightarrow> tensor" where
  "blocks_net sc p a 0 x = x"
| "blocks_net sc p a (Suc n) x =
     Add (blocks_net sc p a n x)
       (residual_path (sc @ [''block_'' @ decimal n]) p a (blocks_net sc p a n x))"

primrec blocks_ops :: "string list \<Rightarrow> (int \<times> int) list \<Rightarrow> layer_args \<Rightarrow> nat \<Rightarrow> tensor \<Rightarrow> tensor list" where
  "blocks_ops sc p a 0 x = []"
| "blocks_ops sc p a (Suc n) x =
     blocks_ops sc p a n x @ residual_ops (sc @ [''block_'' @ decimal n]) p a (blocks_net sc p a n x)"

primrec blocks_end_points ::
  "string list \<Rightarrow> (int \<times> int) list \<Rightarrow> layer_args \<Rightarrow> nat \<Rightarrow> tensor \<Rightarrow> end_points \<Rightarrow> end_points" where
  "blocks_end_points sc p a 0 x ep = ep"
| "blocks_end_points sc p a (Suc n) x ep =
     (blocks_end_points sc p a n x ep)(''resnet_block_'' @ decimal n \<mapsto> blocks_net sc p a (Suc n) x)"

text \<open>The generator's local values: the kernel as a list, and the paddings made from it.\<close>

definition spatial_pad_3 :: "(int \<times> int) list" where
  "spatial_pad_3 = [(0, 0), (3, 3), (3, 3), (0, 0)]"

definition spatial_pad_1 :: "(int \<times> int) list" where
  "spatial_pad_1 = [(0, 0), (1, 1), (1, 1), (0, 0)]"

definition kernel_list :: "int_or_seq \<Rightarrow> int list" where
  "kernel_list ks = (case ks of Scalar k \<Rightarrow> [k, k] | Seq l \<Rightarrow> l)"

definition kernel_paddings :: "int \<Rightarrow> int \<Rightarrow> (int \<times> int) list" where
  "kernel_paddings kh kw = [(0, 0), ((kh - 1) div 2, kh div 2), ((kw - 1) div 2, kw div 2), (0, 0)]"

text \<open>The three encoder tensors, named after their end points.\<close>

definition encoder_0 :: "string list \<Rightarrow> int \<Rightarrow> tensor \<Rightarrow> tensor" where
  "encoder_0 sc nf images =
     pad_conv_norm_relu (sc @ [''input'']) spatial_pad_3 (conv_args (Some nf) (Scalar 7) 1) images"

definition encoder_1 :: "string list \<Rightarrow> int \<Rightarrow> int list \<Rightarrow> (int \<times> int) list \<Rightarrow> tensor \<Rightarrow> tensor" where
  "encoder_1 sc nf kl p images =
     pad_conv_norm_relu (sc @ [''encoder'']) p (conv_args (Some (nf * 2)) (Seq kl) 2)
       (encoder_0 sc nf images)"

definition encoder_2 :: "string list \<Rightarrow> int \<Rightarrow> int list \<Rightarrow> (int \<times> int) list \<Rightarrow> tensor \<Rightarrow> tensor" where
  "encoder_2 sc nf kl p images =
     pad_conv_norm_relu (sc @ [''encoder'']) p (conv_args (Some (nf * 4)) (Seq kl) 2)
       (encoder_1 sc nf kl p images)"

definition encoder_ops :: "string list \<Rightarrow> int \<Rightarrow> int list \<Rightarrow> (int \<times> int) list \<Rightarrow> tensor \<Rightarrow> tensor list" where
  "encoder_ops sc nf kl p images =
     pad_conv_norm_relu_ops (sc @ [''input'']) spatial_pad_3 (conv_args (Some nf) (Scalar 7) 1) images
     @ pad_conv_norm_relu_ops (sc @ [''encoder'']) p (conv_args (Some (nf * 2)) (Seq kl) 2)
         (encoder_0 sc nf images)
     @ pad_conv_norm_relu_ops (sc @ [''encoder'']) p (conv_args (Some (nf * 4)) (Seq kl) 2)
         (encoder_1 sc nf kl p images)"

text \<open>The output: what the logits are reshaped to, the logits, the predictions.\<close>

definition target_shape :: "tensor \<Rightarrow> shape_arg" where
  "target_shape images =
     (if is_fully_defined images then StaticList (the (shape_of images))
      else ShapeTensor (Shape images))"

definition logits_net :: "string list \<Rightarrow> dim \<Rightarrow> tensor \<Rightarrow> tensor \<Rightarrow> tensor" where
  "logits_net sc c images x =
     Reshape (pad_conv (sc @ [''encoder'', ''output'']) spatial_pad_3
                (conv_args (map_option int c) (Scalar 7) 1) x)
       (target_shape images)"

definition predictions_net :: "real \<Rightarrow> tensor \<Rightarrow> tensor" where
  "predictions_net slope logits = Add (Tanh logits) (MulScalar logits slope)"

definition output_ops :: "string list \<Rightarrow> dim \<Rightarrow> tensor \<Rightarrow> real \<Rightarrow> tensor \<Rightarrow> tensor list" where
  "output_ops sc c images slope x =
     pad_conv_ops (sc @ [''encoder'', ''output'']) spatial_pad_3
       (conv_args (map_option int c) (Scalar 7) 1) x
     @ [Shape images, logits_net sc c images x, Tanh (logits_net sc c images x),
        MulScalar (logits_net sc c images x) slope,
        predictions_net slope (logits_net sc c images x)]"

text \<open>The calls of \<open>cyclegan_upsample\<close>: the shape reads, then one of the two ways.\<close>

definition shape_reads :: "tensor \<Rightarrow> tensor list" where
  "shape_reads net = [Shape net, GetItem (Shape net) 1, GetItem (Shape net) 2]"

definition transpose_ops :: "string list \<Rightarrow> int \<Rightarrow> int list \<Rightarrow> tensor \<Rightarrow> tensor list" where
  "transpose_ops sc num_outputs strides net =
     [Conv2DTranspose sc net (deconv_args num_outputs strides),
      Relu (Conv2DTranspose sc net (deconv_args num_outputs strides)),
      Crop11 (Relu (Conv2DTranspose sc net (deconv_args num_outputs strides)))]"

definition resized :: "int \<Rightarrow> int \<Rightarrow> resize_method \<Rightarrow> tensor \<Rightarrow> tensor" where
  "resized s0 s1 m net =
     Resize net (ScalarMul s0 (GetItem (Shape net) 1)) (ScalarMul s1 (GetItem (Shape net) 2)) m"

definition resize_ops ::
  "string list \<Rightarrow> int \<Rightarrow> int \<Rightarrow> int \<Rightarrow> resize_method \<Rightarrow> string \<Rightarrow> tensor \<Rightarrow> tensor list" where
  "resize_ops sc num_outputs s0 s1 m pad_mode net =
     [ScalarMul s0 (GetItem (Shape net) 1), ScalarMul s1 (GetItem (Shape net) 2),
      resized s0 s1 m net,
      Pad (resized s0 s1 m net) spatial_pad_1 pad_mode,
      Conv2D sc (Pad (resized s0 s1 m net) spatial_pad_1 pad_mode)
        (conv_args (Some num_outputs) (Scalar 3) 1),
      normed sc (Conv2D sc (Pad (resized s0 s1 m net) spatial_pad_1 pad_mode)
        (conv_args (Some num_outputs) (Scalar 3) 1)),
      Relu (normed sc (Conv2D sc (Pad (resized s0 s1 m net) spatial_pad_1 pad_mode)
        (conv_args (Some num_outputs) (Scalar 3) 1)))]"

definition resize_method_of :: "string \<Rightarrow> resize_method" where
  "resize_method_of method = (if method = ''nn_upsample_conv'' then NEAREST_NEIGHBOR else BILINEAR)"

section \<open>Predicates of the statements\<close>

text \<open>The three methods that the documentation of \<open>cyclegan_upsample\<close> names.\<close>

definition known_method :: "string \<Rightarrow> bool" where
  "known_method method =
     (method = ''nn_upsample_conv'' \<or> method = ''bilinear_upsample_conv''
      \<or> method = ''conv2d_transpose'')"

text \<open>A dimension that is known statically, is not zero and is not a multiple of 4.\<close>

definition not_multiple_of_4 :: "dim \<Rightarrow> bool" where
  "not_multiple_of_4 d = (case d of None \<Rightarrow> False | Some n \<Rightarrow> n \<noteq> 0 \<and> n mod 4 \<noteq> 0)"

text \<open>A state to run examples in: no scope is open and the graph is empty.\<close>

definition empty_state :: tf_state where
  "empty_state = \<lparr>var_scope = [], graph_ops = []\<rparr>"

definition example_images :: tensor where
  "example_images = Input [None, Some 8, Some 12, Some 3]"

section \<open>The topology as a list of stages\<close>









section \<open>Dimensions\<close>





definition double_dim :: "dim \<Rightarrow> dim" where
  "double_dim d = map_option (\<lambda>n. 2 * n) d"


section \<open>Normalization\<close>

text \<open>
  A node of the graph that normalizes, and a node as \<open>_instance_norm\<close> makes it: the
  library's instance normalization with offset and scale and \<open>epsilon = 0.001\<close>.
\<close>

definition normalization :: "tensor \<Rightarrow> bool" where
  "normalization t = (case t of InstanceNorm sc x center scale epsilon \<Rightarrow> True | _ \<Rightarrow> False)"

definition made_by_instance_norm :: "tensor \<Rightarrow> bool" where
  "made_by_instance_norm t =
     (case t of InstanceNorm sc x center scale epsilon \<Rightarrow> center \<and> scale \<and> epsilon = 0.001
      | _ \<Rightarrow> False)"

definition norms_ok :: "tensor list \<Rightarrow> bool" where
  "norms_ok ops = list_all (\<lambda>t. \<not> normalization t \<or> made_by_instance_norm t) ops"

text \<open>
  The values of a rank-4 tensor in the layout batch, height, width, channels; the values
  of one sample in one channel; mean and variance of a list of values.
\<close>

type_synonym array4 = "real list list list list"

definition slice :: "array4 \<Rightarrow> nat \<Rightarrow> nat \<Rightarrow> real list" where
  "slice v n c = concat (map (map (\<lambda>pixel. pixel ! c)) (v ! n))"

definition mean :: "real list \<Rightarrow> real" where
  "mean xs = sum_list xs / real (length xs)"

definition variance :: "real list \<Rightarrow> real" where
  "variance xs = mean (map (\<lambda>x. (x - mean xs)\<^sup>2) xs)"

text \<open>
  Modelled from the spec: \<^verbatim>\<open>tfgan.features.instance_norm\<close>, the library function that
  \<open>_instance_norm\<close> calls; it is defined outside the file. The glossary of the
  specification has "Instance normalization: Per-sample, per-channel normalization layer":
  every value is normalized by the mean and the variance of its own sample and channel,
  then scaled by \<open>gamma\<close> and shifted by \<open>beta\<close>, the learned scale and offset of the
  channel, when \<open>scale\<close> and \<open>center\<close> are set.
\<close>

definition features_instance_norm ::
  "bool \<Rightarrow> bool \<Rightarrow> real \<Rightarrow> (nat \<Rightarrow> real) \<Rightarrow> (nat \<Rightarrow> real) \<Rightarrow> array4 \<Rightarrow> array4" where
  "features_instance_norm center scale epsilon beta gamma v =
     map (\<lambda>n. map (map (\<lambda>pixel. map (\<lambda>c.
            (if scale then gamma c else 1)
              * ((pixel ! c - mean (slice v n c)) / sqrt (variance (slice v n c) + epsilon))
            + (if center then beta c else 0))
          [0 ..< length pixel])) (v ! n))
       [0 ..< length v]"

text \<open>
  The values of a normalization node, given the values of its input.
\<close>

definition normalized_values :: "tensor \<Rightarrow> (nat \<Rightarrow> real) \<Rightarrow> (nat \<Rightarrow> real) \<Rightarrow> array4 \<Rightarrow> array4" where
  "normalized_values t beta gamma v =
     (case t of
        InstanceNorm sc x center scale epsilon \<Rightarrow> features_instance_norm center scale epsilon beta gamma v
      | _ \<Rightarrow> v)"

section \<open>The variable scope of a node\<close>

text \<open>
  A node that creates variables, a convolution or a normalization, was made under the
  scope \<open>sc0\<close> when its own scope starts with \<open>sc0\<close>. Other nodes create no variable.
\<close>

definition made_under :: "string list \<Rightarrow> tensor \<Rightarrow> bool" where
  "made_under sc0 t =
     (case t of
        Conv2D sc x a \<Rightarrow> take (length sc0) sc = sc0
      | Conv2DTranspose sc x a \<Rightarrow> take (length sc0) sc = sc0
      | InstanceNorm sc x center scale epsilon \<Rightarrow> take (length sc0) sc = sc0
      | _ \<Rightarrow> True)"

definition all_under :: "string list \<Rightarrow> tensor list \<Rightarrow> bool" where
  "all_under sc0 ops = list_all (made_under sc0) ops"

section \<open>More example inputs\<close>




definition example_values :: array4 where
  "example_values = [[[[1, 10], [3, 20]]]]"

section \<open>Basic facts\<close>

declare decimal.simps [simp del]

subsection \<open>Lists and decimal digits\<close>

lemma short_list: "length xs < 2 \<Longrightarrow> xs = [] \<or> (\<exists>x. xs = [x])"
  by (cases xs) auto

lemma long_list: "\<not> length xs < 2 \<Longrightarrow> \<exists>x y rest. xs = x # y # rest"
  by (cases xs; cases "tl xs") auto

lemma pair_list: "length xs = 2 \<Longrightarrow> \<exists>x y. xs = [x, y]"
  by (cases xs; cases "tl xs") auto

lemma digit_char_inj: "a < 10 \<Longrightarrow> b < 10 \<Longrightarrow> digit_char a = digit_char b \<Longrightarrow> a = b"
proof -
  assume a: "a < 10" and b: "b < 10" and e: "digit_char a = digit_char b"
  have A: "a \<in> {0,1,2,3,4,5,6,7,8,9}" using a by auto
  have B: "b \<in> {0,1,2,3,4,5,6,7,8,9}" using b by auto
  show ?thesis using A B e by (auto simp: digit_char_def)
qed

lemma decimal_not_Nil: "decimal n \<noteq> []"
  by (subst decimal.simps) simp

lemma decimal_inj: "decimal n = decimal m \<Longrightarrow> n = m"
proof (induction n arbitrary: m rule: decimal.induct)
  case (1 n)
  show ?case
  proof (cases "n < 10")
    case True
    show ?thesis
    proof (cases "m < 10")
      case m: True
      from "1.prems" True m have "digit_char n = digit_char m"
        by (simp add: decimal.simps)
      then show ?thesis using True m by (rule digit_char_inj [rotated 2])
    next
      case m: False
      from "1.prems" True m show ?thesis
        using decimal_not_Nil [of "m div 10"]
        by (simp add: decimal.simps [of n] decimal.simps [of m])
    qed
  next
    case False
    show ?thesis
    proof (cases "m < 10")
      case m: True
      from "1.prems" False m show ?thesis
        using decimal_not_Nil [of "n div 10"]
        by (simp add: decimal.simps [of n] decimal.simps [of m])
    next
      case m: False
      from "1.prems" False m
      have e: "decimal (n div 10) = decimal (m div 10)"
        "digit_char (n mod 10) = digit_char (m mod 10)"
        by (simp_all add: decimal.simps [of n] decimal.simps [of m])
      from "1.IH" [OF False e(1)] have d: "n div 10 = m div 10" .
      from e(2) have r: "n mod 10 = m mod 10" by (intro digit_char_inj) simp_all
      from d r show ?thesis by (metis div_mult_mod_eq)
    qed
  qed
qed

lemma decimal_eq_iff [simp]: "(decimal i = decimal j) = (i = j)"
  by (auto dest: decimal_inj)

subsection \<open>The framework calls as equations\<close>

lemma tf_pad_eq: "tf_pad t p m g = (Pad t p m, g\<lparr>graph_ops := graph_ops g @ [Pad t p m]\<rparr>)"
  by (simp add: tf_pad_def add_op_def)

lemma conv2d_eq:
  "conv2d t f ks s g =
     (Conv2D (var_scope g) t (conv_args f ks s),
      g\<lparr>graph_ops := graph_ops g @ [Conv2D (var_scope g) t (conv_args f ks s)]\<rparr>)"
  by (simp add: conv2d_def tf_layers_conv2d_def add_op_def conv_args_def)

lemma instance_norm_eq:
  "instance_norm t g =
     (normed (var_scope g) t, g\<lparr>graph_ops := graph_ops g @ [normed (var_scope g) t]\<rparr>)"
  by (simp add: instance_norm_def tfgan_features_instance_norm_def add_op_def normed_def)

lemma tf_nn_relu_eq: "tf_nn_relu t g = (Relu t, g\<lparr>graph_ops := graph_ops g @ [Relu t]\<rparr>)"
  by (simp add: tf_nn_relu_def add_op_def)

lemma tensor_add_eq: "tensor_add a b g = (Add a b, g\<lparr>graph_ops := graph_ops g @ [Add a b]\<rparr>)"
  by (simp add: tensor_add_def add_op_def)

lemma tf_reshape_eq:
  "tf_reshape t s g = (Reshape t s, g\<lparr>graph_ops := graph_ops g @ [Reshape t s]\<rparr>)"
  by (simp add: tf_reshape_def add_op_def)

lemma tf_tanh_eq: "tf_tanh t g = (Tanh t, g\<lparr>graph_ops := graph_ops g @ [Tanh t]\<rparr>)"
  by (simp add: tf_tanh_def add_op_def)

lemma tensor_times_float_eq:
  "tensor_times_float t c g = (MulScalar t c, g\<lparr>graph_ops := graph_ops g @ [MulScalar t c]\<rparr>)"
  by (simp add: tensor_times_float_def add_op_def)

lemma variable_scope_eq:
  "variable_scope name body g =
     (case body (g\<lparr>var_scope := var_scope g @ [name]\<rparr>) of
        (r, g') \<Rightarrow> (r, g'\<lparr>var_scope := var_scope g\<rparr>))"
  by (simp add: variable_scope_def)

lemma dynamic_or_static_shape_eq:
  "shape_of t = Some s \<Longrightarrow>
   dynamic_or_static_shape t g =
     (Inr (target_shape t), g\<lparr>graph_ops := graph_ops g @ [Shape t]\<rparr>)"
  by (simp add: dynamic_or_static_shape_def tf_shape_def add_op_def as_list_def
      is_fully_defined_def target_shape_def)

lemmas layer_eqs = tf_pad_eq conv2d_eq instance_norm_eq tf_nn_relu_eq tensor_add_eq
  tf_reshape_eq tf_tanh_eq tensor_times_float_eq

lemmas upsample_eqs = tf_shape_def tensor_getitem_def int_times_tensor_def tf_image_resize_def
  tf_layers_conv2d_transpose_def tensor_crop11_def add_op_def

lemmas piece_defs = pad_conv_norm_relu_ops_def pad_conv_norm_ops_def pad_conv_ops_def
  pad_conv_norm_relu_def pad_conv_norm_def pad_conv_def

lemma case_prod_case_prod:
  "(case (case p of (a, b) \<Rightarrow> f a b) of (c, d) \<Rightarrow> k c d) =
   (case p of (a, b) \<Rightarrow> (case f a b of (c, d) \<Rightarrow> k c d))"
  by (cases p) simp

lemma case_sum_case_prod:
  "(case (case p of (a, b) \<Rightarrow> f a b) of Inl e \<Rightarrow> k1 e | Inr v \<Rightarrow> k2 v) =
   (case p of (a, b) \<Rightarrow> (case f a b of Inl e \<Rightarrow> k1 e | Inr v \<Rightarrow> k2 v))"
  by (cases p) simp

lemma case_prod_case_sum:
  "(case (case s of Inl e \<Rightarrow> f1 e | Inr v \<Rightarrow> f2 v) of (c, d) \<Rightarrow> k c d) =
   (case s of Inl e \<Rightarrow> (case f1 e of (c, d) \<Rightarrow> k c d)
            | Inr v \<Rightarrow> (case f2 v of (c, d) \<Rightarrow> k c d))"
  by (cases s) simp_all

section \<open>What the functions of the module compute\<close>

subsection \<open>\<open>cyclegan_upsample\<close>\<close>

lemma upsample_unknown_eq:
  assumes "method \<noteq> ''nn_upsample_conv''" "method \<noteq> ''bilinear_upsample_conv''"
    "method \<noteq> ''conv2d_transpose''"
  shows "cyclegan_upsample net num_outputs strides method pad_mode g =
     (Inl (ValueError (''Unknown method: ['' @ method @ '']'')),
      g\<lparr>graph_ops := graph_ops g @ shape_reads net\<rparr>)"
  using assms
  by (simp add: cyclegan_upsample_def variable_scope_eq upsample_eqs Let_def shape_reads_def)

lemma upsample_transpose_eq:
  "cyclegan_upsample net num_outputs strides ''conv2d_transpose'' pad_mode g =
     (Inr (last (transpose_ops (var_scope g @ [''upconv'']) num_outputs strides net)),
      g\<lparr>graph_ops := graph_ops g @ shape_reads net
          @ transpose_ops (var_scope g @ [''upconv'']) num_outputs strides net\<rparr>)"
  by (simp add: cyclegan_upsample_def variable_scope_eq upsample_eqs layer_eqs Let_def
      shape_reads_def transpose_ops_def deconv_args_def)

lemma upsample_resize_eq:
  assumes "method = ''nn_upsample_conv'' \<or> method = ''bilinear_upsample_conv''"
    and "strides = s0 # s1 # rest"
  shows "cyclegan_upsample net num_outputs strides method pad_mode g =
     (Inr (last (resize_ops (var_scope g @ [''upconv'']) num_outputs s0 s1
             (resize_method_of method) pad_mode net)),
      g\<lparr>graph_ops := graph_ops g @ shape_reads net
          @ resize_ops (var_scope g @ [''upconv'']) num_outputs s0 s1
              (resize_method_of method) pad_mode net\<rparr>)"
proof -
  note defs = cyclegan_upsample_def variable_scope_eq upsample_eqs layer_eqs Let_def
      shape_reads_def resize_ops_def resized_def resize_method_of_def getitem_def spatial_pad_1_def
  from assms(1) show ?thesis
  proof
    assume "method = ''nn_upsample_conv''"
    with assms(2) show ?thesis by (simp add: defs)
  next
    assume "method = ''bilinear_upsample_conv''"
    with assms(2) show ?thesis by (simp add: defs)
  qed
qed

lemma upsample_short_strides:
  assumes "method = ''nn_upsample_conv'' \<or> method = ''bilinear_upsample_conv''"
    and "length strides < 2"
  shows "fst (cyclegan_upsample net num_outputs strides method pad_mode g) = Inl IndexError"
proof -
  note defs = cyclegan_upsample_def variable_scope_eq upsample_eqs Let_def getitem_def
  from assms(2) consider "strides = []" | s where "strides = [s]"
    using short_list [of strides] by auto
  then show ?thesis
  proof cases
    case 1
    from assms(1) show ?thesis
    proof
      assume "method = ''nn_upsample_conv''"
      with 1 show ?thesis by (simp add: defs)
    next
      assume "method = ''bilinear_upsample_conv''"
      with 1 show ?thesis by (simp add: defs)
    qed
  next
    case 2
    from assms(1) show ?thesis
    proof
      assume "method = ''nn_upsample_conv''"
      with 2 show ?thesis by (simp add: defs)
    next
      assume "method = ''bilinear_upsample_conv''"
      with 2 show ?thesis by (simp add: defs)
    qed
  qed
qed

lemma upsample_default_eq:
  "cyclegan_upsample_default net num_outputs strides g =
     (Inr (last (transpose_ops (var_scope g @ [''upconv'']) num_outputs strides net)),
      g\<lparr>graph_ops := graph_ops g @ shape_reads net
          @ transpose_ops (var_scope g @ [''upconv'']) num_outputs strides net\<rparr>)"
  by (simp add: cyclegan_upsample_default_def upsample_transpose_eq)

subsection \<open>The loop over the residual blocks\<close>

lemma resnet_block_eq:
  "resnet_block nf kl p i ((x, ep), g) =
     (let sc = var_scope g @ [''block_'' @ decimal i];
          a = conv_args (Some (nf * 4)) (Seq kl) 1;
          y = Add x (residual_path sc p a x)
      in ((y, ep(''resnet_block_'' @ decimal i \<mapsto> y)),
          g\<lparr>graph_ops := graph_ops g @ residual_ops sc p a x\<rparr>))"
  by (simp add: resnet_block_def variable_scope_eq layer_eqs Let_def residual_ops_def
      residual_path_def piece_defs)

lemma resnet_loop_eq:
  "fold (resnet_block nf kl p) [0 ..< n] ((x, ep), g) =
     ((blocks_net (var_scope g) p (conv_args (Some (nf * 4)) (Seq kl) 1) n x,
       blocks_end_points (var_scope g) p (conv_args (Some (nf * 4)) (Seq kl) 1) n x ep),
      g\<lparr>graph_ops := graph_ops g
          @ blocks_ops (var_scope g) p (conv_args (Some (nf * 4)) (Seq kl) 1) n x\<rparr>)"
proof (induction n)
  case 0
  show ?case by simp
next
  case (Suc n)
  show ?case
    by (simp add: Suc.IH resnet_block_eq Let_def fun_upd_def)
qed

lemma blocks_end_points_other:
  "(\<And>i. i < n \<Longrightarrow> k \<noteq> ''resnet_block_'' @ decimal i) \<Longrightarrow>
   blocks_end_points sc p a n x ep k = ep k"
  by (induction n) simp_all

lemma blocks_end_points_block:
  "i < n \<Longrightarrow>
   blocks_end_points sc p a n x ep (''resnet_block_'' @ decimal i) =
     Some (blocks_net sc p a (Suc i) x)"
proof (induction n)
  case 0
  then show ?case by simp
next
  case (Suc n)
  show ?case
  proof (cases "i = n")
    case True
    then show ?thesis by simp
  next
    case False
    with Suc.prems have "i < n" by simp
    with Suc.IH False show ?thesis by simp
  qed
qed

subsection \<open>\<open>cyclegan_generator_resnet\<close>\<close>

lemma check_eq: "(truthy d \<and> the d mod 4 \<noteq> 0) = not_multiple_of_4 d"
  by (cases d) (simp_all add: truthy_def not_multiple_of_4_def)

lemma generator_height_error:
  assumes "shape_of images = Some [b, h, w, c]" and "not_multiple_of_4 h"
  shows "cyclegan_generator_resnet images n nf up ks slope g =
           (Inl (ValueError ''The input height must be a multiple of 4.''), g)"
proof -
  have "(truthy h \<and> 0 < the h mod 4) = True"
    using assms(2) check_eq [of h] by simp
  then show ?thesis
    using assms(1) unfolding cyclegan_generator_resnet_def
    by (simp add: as_list_def getitem_def)
qed

lemma generator_width_error:
  assumes "shape_of images = Some [b, h, w, c]"
    and "\<not> not_multiple_of_4 h" and "not_multiple_of_4 w"
  shows "cyclegan_generator_resnet images n nf up ks slope g =
           (Inl (ValueError ''The input width must be a multiple of 4.''), g)"
proof -
  have "(truthy h \<and> 0 < the h mod 4) = False" "(truthy w \<and> 0 < the w mod 4) = True"
    using assms(2,3) check_eq [of h] check_eq [of w] by simp_all
  then show ?thesis
    using assms(1) unfolding cyclegan_generator_resnet_def
    by (simp add: as_list_def getitem_def)
qed

lemma generator_kernel_error:
  assumes "shape_of images = Some [b, h, w, c]"
    and "\<not> not_multiple_of_4 h" and "\<not> not_multiple_of_4 w"
    and "length (kernel_list ks) < 2"
  shows "cyclegan_generator_resnet images n nf up ks slope g = (Inl IndexError, g)"
proof -
  have c: "(truthy h \<and> 0 < the h mod 4) = False" "(truthy w \<and> 0 < the w mod 4) = False"
    using assms(2,3) check_eq [of h] check_eq [of w] by simp_all
  have k: "(case ks of Scalar k \<Rightarrow> [k, k] | Seq l \<Rightarrow> l) = kernel_list ks"
    by (simp add: kernel_list_def)
  from assms(4) consider "kernel_list ks = []" | k0 where "kernel_list ks = [k0]"
    using short_list [of "kernel_list ks"] by auto
  then show ?thesis
  proof cases
    case 1
    then show ?thesis
      using assms(1) c unfolding cyclegan_generator_resnet_def k
      by (simp add: as_list_def getitem_def)
  next
    case 2
    then show ?thesis
      using assms(1) c unfolding cyclegan_generator_resnet_def k
      by (simp add: as_list_def getitem_def)
  qed
qed

text \<open>
  Past its checks the generator is the encoder and the residual blocks, then the two calls
  of \<open>upsample_fn\<close>, each of which may raise, then the output.
\<close>

lemma generator_eq:
  assumes "shape_of images = Some [b, h, w, c]"
    and "\<not> not_multiple_of_4 h" and "\<not> not_multiple_of_4 w"
    and "kernel_list ks = kh # kw # rest"
  shows "cyclegan_generator_resnet images n nf up ks slope g =
    (let sc = var_scope g; kl = kernel_list ks; p = kernel_paddings kh kw;
         a = conv_args (Some (nf * 4)) (Seq kl) 1;
         scr = sc @ [''encoder'', ''residual_blocks''];
         x2 = encoder_2 sc nf kl p images;
         x3 = blocks_net scr p a (nat n) x2;
         ep = blocks_end_points scr p a (nat n) x2
                [''encoder_0'' \<mapsto> encoder_0 sc nf images,
                 ''encoder_1'' \<mapsto> encoder_1 sc nf kl p images,
                 ''encoder_2'' \<mapsto> x2];
         g1 = g\<lparr>graph_ops := graph_ops g @ encoder_ops sc nf kl p images
                  @ blocks_ops scr p a (nat n) x2\<rparr>
     in case up x3 (nf * 2) [2, 2]
               (g1\<lparr>var_scope := sc @ [''encoder'', ''decoder'', ''decoder1'']\<rparr>) of
          (Inl e, g2) \<Rightarrow> (Inl e, g2\<lparr>var_scope := sc\<rparr>)
        | (Inr d1, g2) \<Rightarrow>
           (case up d1 nf [2, 2]
                   (g2\<lparr>var_scope := sc @ [''encoder'', ''decoder'', ''decoder2'']\<rparr>) of
              (Inl e, g3) \<Rightarrow> (Inl e, g3\<lparr>var_scope := sc\<rparr>)
            | (Inr d2, g3) \<Rightarrow>
               (Inr (predictions_net slope (logits_net sc c images d2),
                     ep(''decoder1'' \<mapsto> d1, ''decoder2'' \<mapsto> d2,
                        ''logits'' \<mapsto> logits_net sc c images d2,
                        ''predictions'' \<mapsto>
                          predictions_net slope (logits_net sc c images d2))),
                g3\<lparr>graph_ops := graph_ops g3 @ output_ops sc c images slope d2,
                   var_scope := sc\<rparr>)))"
proof -
  have checks: "(truthy h \<and> 0 < the h mod 4) = False" "(truthy w \<and> 0 < the w mod 4) = False"
    using assms(2,3) check_eq [of h] check_eq [of w] by simp_all
  have kfold: "(case ks of Scalar k \<Rightarrow> [k, k] | Seq l \<Rightarrow> l) = kh # kw # rest"
    using assms(4) by (simp add: kernel_list_def)
  show ?thesis
    using assms(1,4)
    unfolding cyclegan_generator_resnet_def
    by (simp add: as_list_def getitem_def kfold checks Let_def layer_eqs variable_scope_eq
      resnet_loop_eq dynamic_or_static_shape_eq
      encoder_0_def encoder_1_def encoder_2_def encoder_ops_def piece_defs logits_net_def
      predictions_net_def output_ops_def spatial_pad_3_def kernel_paddings_def
      case_prod_case_prod case_sum_case_prod case_prod_case_sum
      cong: prod.case_cong sum.case_cong)
qed

lemma generator_returns:
  assumes "shape_of images = Some [b, h, w, c]"
    and "\<not> not_multiple_of_4 h" and "\<not> not_multiple_of_4 w"
    and "kernel_list ks = kh # kw # rest"
    and "\<And>x no st g0. \<exists>t g1. up x no st g0 = (Inr t, g1)"
  shows "\<exists>p ep g'. cyclegan_generator_resnet images n nf up ks slope g = (Inr (p, ep), g')"
proof -
  define sc where "sc = var_scope g"
  define p where "p = kernel_paddings kh kw"
  define a where "a = conv_args (Some (nf * 4)) (Seq (kernel_list ks)) 1"
  define scr where "scr = sc @ [''encoder'', ''residual_blocks'']"
  define x2 where "x2 = encoder_2 sc nf (kernel_list ks) p images"
  define g1 where "g1 = g\<lparr>graph_ops := graph_ops g @ encoder_ops sc nf (kernel_list ks) p images
      @ blocks_ops scr p a (nat n) x2,
      var_scope := sc @ [''encoder'', ''decoder'', ''decoder1'']\<rparr>"
  obtain d1 g2 where u1: "up (blocks_net scr p a (nat n) x2) (nf * 2) [2, 2] g1 = (Inr d1, g2)"
    using assms(5) by blast
  obtain d2 g3 where u2:
    "up d1 nf [2, 2] (g2\<lparr>var_scope := sc @ [''encoder'', ''decoder'', ''decoder2'']\<rparr>) = (Inr d2, g3)"
    using assms(5) by blast
  show ?thesis
    unfolding generator_eq [OF assms(1-4)]
    using u1 u2 by (simp add: Let_def sc_def p_def a_def scr_def x2_def g1_def)
qed

lemma upsample_default_returns:
  "\<exists>t g1. cyclegan_upsample_default x no st g0 = (Inr t, g1)"
  by (simp add: upsample_default_eq)

subsection \<open>Errors of the generator\<close>


subsection \<open>The state across a call\<close>

text \<open>
  With \<open>cyclegan_upsample\<close> as the upsampling function, a call of the generator in a
  state of variable scope \<open>sc\<close> appends its nodes to the graph and leaves the scope as it
  was; the nodes that create variables are made under \<open>sc\<close>.
\<close>

lemma scope_kept:
  "var_scope g0 = sc \<Longrightarrow> g0\<lparr>graph_ops := ops, var_scope := sc\<rparr> = g0\<lparr>graph_ops := ops\<rparr>"
  by (cases g0) simp

lemma all_under_append [simp]: "all_under sc0 (xs @ ys) = (all_under sc0 xs \<and> all_under sc0 ys)"
  by (simp add: all_under_def)

lemma all_under_Nil [simp]: "all_under sc0 []"
  by (simp add: all_under_def)

lemma made_under_weaken:
  assumes "made_under (sc0 @ r) t"
  shows "made_under sc0 t"
proof -
  have w: "take (length sc0) sc = sc0" if "take (length (sc0 @ r)) sc = sc0 @ r" for sc
  proof -
    have "sc = (sc0 @ r) @ drop (length (sc0 @ r)) sc"
      using that append_take_drop_id [of "length (sc0 @ r)" sc] by simp
    then obtain rest where "sc = sc0 @ rest" by (metis append.assoc)
    then show ?thesis by simp
  qed
  from assms show ?thesis
    by (cases t) (simp_all add: made_under_def w)
qed

lemma all_under_weaken: "all_under (sc0 @ r) ops \<Longrightarrow> all_under sc0 ops"
  by (auto simp add: all_under_def list_all_iff intro: made_under_weaken)

lemma all_under_layers [simp]:
  "all_under sc0 (pad_conv_ops (sc0 @ r) p a x)"
  "all_under sc0 (pad_conv_norm_ops (sc0 @ r) p a x)"
  "all_under sc0 (pad_conv_norm_relu_ops (sc0 @ r) p a x)"
  by (simp_all add: all_under_def piece_defs normed_def made_under_def)

lemma all_under_residual [simp]: "all_under sc0 (residual_ops (sc0 @ r) p a x)"
  by (simp add: residual_ops_def) (simp add: all_under_def made_under_def)

lemma all_under_blocks [simp]: "all_under sc0 (blocks_ops (sc0 @ r) p a n x)"
  by (induction n) simp_all

lemma all_under_encoder [simp]: "all_under sc0 (encoder_ops sc0 nf kl p images)"
  by (simp add: encoder_ops_def)

lemma all_under_output [simp]: "all_under sc0 (output_ops sc0 c images slope x)"
  by (simp add: output_ops_def)
     (simp add: all_under_def made_under_def logits_net_def predictions_net_def)

lemma all_under_upsample [simp]:
  "all_under sc0 (shape_reads x)"
  "all_under sc0 (transpose_ops (sc0 @ r) no st x)"
  "all_under sc0 (resize_ops (sc0 @ r) no s0 s1 m pm x)"
  by (simp_all add: all_under_def shape_reads_def transpose_ops_def resize_ops_def resized_def
      normed_def made_under_def)

lemma upsample_frame:
  "\<exists>r new. (\<forall>g0. var_scope g0 = sc \<longrightarrow>
     cyclegan_upsample x no [2, 2] method pad_mode g0 = (r, g0\<lparr>graph_ops := graph_ops g0 @ new\<rparr>))
     \<and> all_under sc new"
proof -
  consider "method = ''conv2d_transpose''"
    | "method = ''nn_upsample_conv'' \<or> method = ''bilinear_upsample_conv''"
    | "\<not> known_method method"
    by (auto simp: known_method_def)
  then show ?thesis
  proof cases
    case 1
    show ?thesis
      apply (rule exI [of _ "Inr (last (transpose_ops (sc @ [''upconv'']) no [2, 2] x))"])
      apply (rule exI [of _ "shape_reads x @ transpose_ops (sc @ [''upconv'']) no [2, 2] x"])
      apply (simp add: 1 upsample_transpose_eq)
      done
  next
    case 2
    show ?thesis
      apply (rule exI [of _ "Inr (last (resize_ops (sc @ [''upconv'']) no 2 2
          (resize_method_of method) pad_mode x))"])
      apply (rule exI [of _ "shape_reads x @ resize_ops (sc @ [''upconv'']) no 2 2
          (resize_method_of method) pad_mode x"])
      apply (simp add: upsample_resize_eq [OF 2 refl [of "[2, 2]"]])
      done
  next
    case 3
    then have m: "method \<noteq> ''nn_upsample_conv''" "method \<noteq> ''bilinear_upsample_conv''"
      "method \<noteq> ''conv2d_transpose''"
      by (simp_all add: known_method_def)
    show ?thesis
      apply (rule exI [of _ "Inl (ValueError (''Unknown method: ['' @ method @ '']''))"])
      apply (rule exI [of _ "shape_reads x"])
      apply (simp add: upsample_unknown_eq [OF m])
      done
  qed
qed

lemma generator_frame:
  assumes "shape_of images = Some [b, h, w, c]"
  shows "\<exists>r new. (\<forall>g0. var_scope g0 = sc \<longrightarrow>
     cyclegan_generator_resnet images num_resnet_blocks num_filters
       (\<lambda>net num_outputs strides. cyclegan_upsample net num_outputs strides method pad_mode)
       kernel_size tanh_linear_slope g0 = (r, g0\<lparr>graph_ops := graph_ops g0 @ new\<rparr>))
     \<and> all_under sc new"
proof -
  let ?up = "\<lambda>net num_outputs strides. cyclegan_upsample net num_outputs strides method pad_mode"
  let ?gen = "cyclegan_generator_resnet images num_resnet_blocks num_filters ?up
                   kernel_size tanh_linear_slope"
  show ?thesis
  proof (cases "not_multiple_of_4 h \<or> not_multiple_of_4 w \<or> length (kernel_list kernel_size) < 2")
    case True
    then have "\<exists>e. \<forall>g0. ?gen g0 = (Inl e, g0)"
      using generator_height_error [OF assms] generator_width_error [OF assms]
        generator_kernel_error [OF assms]
      by (cases "not_multiple_of_4 h"; cases "not_multiple_of_4 w") simp_all
    then obtain e where "\<forall>g0. ?gen g0 = (Inl e, g0)" by blast
    then have "(\<forall>g0. var_scope g0 = sc \<longrightarrow>
        ?gen g0 = (Inl e, g0\<lparr>graph_ops := graph_ops g0 @ []\<rparr>)) \<and> all_under sc []"
      by simp
    then show ?thesis by blast
  next
    case False
    then obtain kh kw rest where k: "kernel_list kernel_size = kh # kw # rest"
      using long_list [of "kernel_list kernel_size"] by auto
    from False have h: "\<not> not_multiple_of_4 h" and w: "\<not> not_multiple_of_4 w" by simp_all
    define p where "p = kernel_paddings kh kw"
    define a where "a = conv_args (Some (num_filters * 4)) (Seq (kernel_list kernel_size)) 1"
    define scr where "scr = sc @ [''encoder'', ''residual_blocks'']"
    define x2 where "x2 = encoder_2 sc num_filters (kernel_list kernel_size) p images"
    define x3 where "x3 = blocks_net scr p a (nat num_resnet_blocks) x2"
    define pre where "pre = encoder_ops sc num_filters (kernel_list kernel_size) p images
        @ blocks_ops scr p a (nat num_resnet_blocks) x2"
    define ep where "ep = blocks_end_points scr p a (nat num_resnet_blocks) x2
                [''encoder_0'' \<mapsto> encoder_0 sc num_filters images,
                 ''encoder_1'' \<mapsto> encoder_1 sc num_filters (kernel_list kernel_size) p images,
                 ''encoder_2'' \<mapsto> x2]"
    have pre: "all_under sc pre"
      by (simp add: pre_def scr_def)
    obtain r1 new1 where u1: "\<And>g0. var_scope g0 = sc @ [''encoder'', ''decoder'', ''decoder1'']
        \<Longrightarrow> ?up x3 (num_filters * 2) [2, 2] g0 = (r1, g0\<lparr>graph_ops := graph_ops g0 @ new1\<rparr>)"
      and n1: "all_under sc new1"
      using upsample_frame [of "sc @ [''encoder'', ''decoder'', ''decoder1'']" x3
          "num_filters * 2" "method" "pad_mode"]
      by (blast intro: all_under_weaken)
    show ?thesis
    proof (cases r1)
      case (Inl e)
      have "\<forall>g0. var_scope g0 = sc \<longrightarrow>
          ?gen g0 = (Inl e, g0\<lparr>graph_ops := graph_ops g0 @ (pre @ new1)\<rparr>)"
      proof (intro allI impI)
        fix g0 :: tf_state
        assume sc: "var_scope g0 = sc"
        show "?gen g0 = (Inl e, g0\<lparr>graph_ops := graph_ops g0 @ (pre @ new1)\<rparr>)"
          unfolding generator_eq [where up = ?up, OF assms h w k]
          using Inl sc u1
          by (simp add: Let_def scope_kept p_def a_def scr_def x2_def x3_def pre_def)
      qed
      moreover have "all_under sc (pre @ new1)" using pre n1 by simp
      ultimately show ?thesis by blast
    next
      case (Inr d1)
      obtain r2 new2 where u2: "\<And>g0. var_scope g0 = sc @ [''encoder'', ''decoder'', ''decoder2'']
          \<Longrightarrow> ?up d1 num_filters [2, 2] g0 = (r2, g0\<lparr>graph_ops := graph_ops g0 @ new2\<rparr>)"
        and n2: "all_under sc new2"
        using upsample_frame [of "sc @ [''encoder'', ''decoder'', ''decoder2'']" d1
            num_filters "method" "pad_mode"]
        by (blast intro: all_under_weaken)
      show ?thesis
      proof (cases r2)
        case (Inl e)
        have "\<forall>g0. var_scope g0 = sc \<longrightarrow>
            ?gen g0 = (Inl e, g0\<lparr>graph_ops := graph_ops g0 @ (pre @ new1 @ new2)\<rparr>)"
        proof (intro allI impI)
          fix g0 :: tf_state
          assume sc: "var_scope g0 = sc"
          show "?gen g0 = (Inl e, g0\<lparr>graph_ops := graph_ops g0 @ (pre @ new1 @ new2)\<rparr>)"
            unfolding generator_eq [where up = ?up, OF assms h w k]
            using Inl \<open>r1 = Inr d1\<close> sc u1 u2
            by (simp add: Let_def scope_kept p_def a_def scr_def x2_def x3_def pre_def)
        qed
        moreover have "all_under sc (pre @ new1 @ new2)" using pre n1 n2 by simp
        ultimately show ?thesis by blast
      next
        case r2: (Inr d2)
        have "\<forall>g0. var_scope g0 = sc \<longrightarrow>
            ?gen g0 =
              (Inr (predictions_net tanh_linear_slope (logits_net sc c images d2),
                    ep(''decoder1'' \<mapsto> d1, ''decoder2'' \<mapsto> d2,
                       ''logits'' \<mapsto> logits_net sc c images d2,
                       ''predictions'' \<mapsto>
                         predictions_net tanh_linear_slope (logits_net sc c images d2))),
               g0\<lparr>graph_ops := graph_ops g0
                   @ (pre @ new1 @ new2 @ output_ops sc c images tanh_linear_slope d2)\<rparr>)"
        proof (intro allI impI)
          fix g0 :: tf_state
          assume sc: "var_scope g0 = sc"
          show "?gen g0 =
              (Inr (predictions_net tanh_linear_slope (logits_net sc c images d2),
                    ep(''decoder1'' \<mapsto> d1, ''decoder2'' \<mapsto> d2,
                       ''logits'' \<mapsto> logits_net sc c images d2,
                       ''predictions'' \<mapsto>
                         predictions_net tanh_linear_slope (logits_net sc c images d2))),
               g0\<lparr>graph_ops := graph_ops g0
                   @ (pre @ new1 @ new2 @ output_ops sc c images tanh_linear_slope d2)\<rparr>)"
            unfolding generator_eq [where up = ?up, OF assms h w k]
            using r2 \<open>r1 = Inr d1\<close> sc u1 u2
            by (simp add: Let_def scope_kept p_def a_def scr_def x2_def x3_def pre_def
                ep_def)
        qed
        moreover have "all_under sc
            (pre @ new1 @ new2 @ output_ops sc c images tanh_linear_slope d2)"
          using pre n1 n2 by simp
        ultimately show ?thesis by blast
      qed
    qed
  qed
qed

subsection \<open>The stages as equations\<close>









subsection \<open>Shapes of the layers\<close>





















text \<open>
  The static shapes of what \<open>cyclegan_upsample\<close> returns.
\<close>

lemma shape_transposed:
  assumes "shape_of x = Some [b, h, w, Some c]" "1 \<le> s0" "1 \<le> s1" "1 \<le> f"
  shows "shape_of (Crop11 (Relu (Conv2DTranspose sc x (deconv_args f [s0, s1])))) =
     Some [b, map_option (\<lambda>n. n - 1) (deconv_dim 3 s0 h),
           map_option (\<lambda>n. n - 1) (deconv_dim 3 s1 w), Some (nat f)]"
proof -
  have v: "valid_layer (deconv_args f [s0, s1]) = Some (3, 3, s0, s1, nat f)"
    using assms(2-4) by (simp add: valid_layer_def deconv_args_def pair_of_def)
  show ?thesis
    by (simp add: assms(1) deconv_shape_def v crop_shape_def)
qed

lemma shape_resized:
  assumes "shape_of x = Some [b, h, w, Some c]" "1 \<le> f"
  shows "shape_of (Relu (InstanceNorm sc
            (Conv2D sc
               (Pad (Resize x (ScalarMul s0 (GetItem (Shape x) 1))
                       (ScalarMul s1 (GetItem (Shape x) 2)) m)
                  [(0, 0), (1, 1), (1, 1), (0, 0)] pad_mode)
               (conv_args (Some f) (Scalar 3) 1))
            True True 0.001)) = Some [b, None, None, Some (nat f)]"
proof -
  have v: "valid_layer (conv_args (Some f) (Scalar 3) 1) = Some (3, 3, 1, 1, nat f)"
    using assms(2) by (simp add: valid_layer_def conv_args_def pair_of_def)
  have r: "shape_of (Resize x (ScalarMul s0 (GetItem (Shape x) 1))
                       (ScalarMul s1 (GetItem (Shape x) 2)) m) = Some [b, None, None, Some c]"
    by (simp add: assms(1) resize_shape_def)
  have p: "shape_of (Pad (Resize x (ScalarMul s0 (GetItem (Shape x) 1))
                       (ScalarMul s1 (GetItem (Shape x) 2)) m)
                  [(0, 0), (1, 1), (1, 1), (0, 0)] pad_mode) = Some [b, None, None, Some c]"
    by (simp only: shape_of.simps(6) r) (simp add: pad_shape_def pad_dim_def option.map_ident)
  show ?thesis
    by (simp only: shape_of.simps(7,9,10) p) (simp add: conv_shape_def v conv_dim_def norm_shape_def)
qed

subsection \<open>The generator with the default upsampling\<close>

lemma generator_default_eq:
  assumes "shape_of images = Some [b, h, w, c]"
    and "\<not> not_multiple_of_4 h" and "\<not> not_multiple_of_4 w"
    and "kernel_list ks = kh # kw # rest"
  shows "cyclegan_generator_resnet images n nf cyclegan_upsample_default ks slope g =
    (let sc = var_scope g; kl = kernel_list ks; p = kernel_paddings kh kw;
         a = conv_args (Some (nf * 4)) (Seq kl) 1;
         scr = sc @ [''encoder'', ''residual_blocks''];
         sc1 = sc @ [''encoder'', ''decoder'', ''decoder1'', ''upconv''];
         sc2 = sc @ [''encoder'', ''decoder'', ''decoder2'', ''upconv''];
         x2 = encoder_2 sc nf kl p images;
         x3 = blocks_net scr p a (nat n) x2;
         d1 = last (transpose_ops sc1 (nf * 2) [2, 2] x3);
         d2 = last (transpose_ops sc2 nf [2, 2] d1);
         logits = logits_net sc c images d2
     in (Inr (predictions_net slope logits,
           (blocks_end_points scr p a (nat n) x2
                [''encoder_0'' \<mapsto> encoder_0 sc nf images,
                 ''encoder_1'' \<mapsto> encoder_1 sc nf kl p images,
                 ''encoder_2'' \<mapsto> x2])
             (''decoder1'' \<mapsto> d1, ''decoder2'' \<mapsto> d2, ''logits'' \<mapsto> logits,
              ''predictions'' \<mapsto> predictions_net slope logits)),
         g\<lparr>graph_ops := graph_ops g @ encoder_ops sc nf kl p images
                @ blocks_ops scr p a (nat n) x2
                @ shape_reads x3 @ transpose_ops sc1 (nf * 2) [2, 2] x3
                @ shape_reads d1 @ transpose_ops sc2 nf [2, 2] d1
                @ output_ops sc c images slope d2\<rparr>))"
  unfolding generator_eq [OF assms]
  by (simp add: Let_def upsample_default_eq)

subsection \<open>The normalization nodes of the graph\<close>

lemma norms_ok_append [simp]: "norms_ok (xs @ ys) = (norms_ok xs \<and> norms_ok ys)"
  by (simp add: norms_ok_def)

lemma norms_ok_Nil [simp]: "norms_ok []"
  by (simp add: norms_ok_def)

lemma norms_ok_layers [simp]:
  "norms_ok (pad_conv_ops sc p a x)"
  "norms_ok (pad_conv_norm_ops sc p a x)"
  "norms_ok (pad_conv_norm_relu_ops sc p a x)"
  by (simp_all add: norms_ok_def piece_defs normed_def normalization_def made_by_instance_norm_def)

lemma norms_ok_residual [simp]: "norms_ok (residual_ops sc p a x)"
  by (simp add: residual_ops_def) (simp add: norms_ok_def normalization_def)

lemma norms_ok_blocks [simp]: "norms_ok (blocks_ops sc p a n x)"
  by (induction n) simp_all

lemma norms_ok_encoder [simp]: "norms_ok (encoder_ops sc nf kl p images)"
  by (simp add: encoder_ops_def)

lemma norms_ok_output [simp]: "norms_ok (output_ops sc c images slope x)"
  by (simp add: output_ops_def)
     (simp add: norms_ok_def normalization_def logits_net_def predictions_net_def)

lemma norms_ok_upsample [simp]:
  "norms_ok (shape_reads x)"
  "norms_ok (transpose_ops sc no st x)"
  "norms_ok (resize_ops sc no s0 s1 m pm x)"
  by (simp_all add: norms_ok_def shape_reads_def transpose_ops_def resize_ops_def resized_def
      normed_def normalization_def made_by_instance_norm_def)

lemma upsample_norms_ok:
  "\<exists>r new. cyclegan_upsample x no [2, 2] method pad_mode g0 = (r, g0\<lparr>graph_ops := graph_ops g0 @ new\<rparr>)
      \<and> norms_ok new"
proof -
  consider "method = ''conv2d_transpose''"
    | "method = ''nn_upsample_conv'' \<or> method = ''bilinear_upsample_conv''"
    | "\<not> known_method method"
    by (auto simp: known_method_def)
  then show ?thesis
  proof cases
    case 1
    have "norms_ok (shape_reads x @ transpose_ops (var_scope g0 @ [''upconv'']) no [2, 2] x)"
      by simp
    then show ?thesis
      unfolding 1 upsample_transpose_eq by blast
  next
    case 2
    have "norms_ok (shape_reads x @ resize_ops (var_scope g0 @ [''upconv'']) no 2 2
        (resize_method_of method) pad_mode x)"
      by simp
    then show ?thesis
      unfolding upsample_resize_eq [OF 2 refl [of "[2, 2]"]] by blast
  next
    case 3
    then have m: "method \<noteq> ''nn_upsample_conv''" "method \<noteq> ''bilinear_upsample_conv''"
      "method \<noteq> ''conv2d_transpose''"
      by (simp_all add: known_method_def)
    have "norms_ok (shape_reads x)" by simp
    then show ?thesis
      unfolding upsample_unknown_eq [OF m] by blast
  qed
qed

lemma generator_norm_sites:
  assumes "shape_of images = Some [b, h, w, c]"
  shows "\<exists>new. graph_ops (snd (cyclegan_generator_resnet images num_resnet_blocks num_filters
                   (\<lambda>net num_outputs strides.
                       cyclegan_upsample net num_outputs strides method pad_mode)
                   kernel_size tanh_linear_slope g)) = graph_ops g @ new
          \<and> (\<forall>t \<in> set new. normalization t \<longrightarrow> made_by_instance_norm t)"
proof -
  let ?up = "\<lambda>net num_outputs strides. cyclegan_upsample net num_outputs strides method pad_mode"
  let ?r = "cyclegan_generator_resnet images num_resnet_blocks num_filters ?up
                   kernel_size tanh_linear_slope g"
  have "\<exists>new. graph_ops (snd ?r) = graph_ops g @ new \<and> norms_ok new"
  proof (cases "not_multiple_of_4 h \<or> not_multiple_of_4 w \<or> length (kernel_list kernel_size) < 2")
    case True
    then have "snd ?r = g"
      using generator_height_error [OF assms] generator_width_error [OF assms]
        generator_kernel_error [OF assms]
      by (cases "not_multiple_of_4 h"; cases "not_multiple_of_4 w") simp_all
    then show ?thesis by simp
  next
    case False
    then obtain kh kw rest where k: "kernel_list kernel_size = kh # kw # rest"
      using long_list [of "kernel_list kernel_size"] by auto
    from False have h: "\<not> not_multiple_of_4 h" and w: "\<not> not_multiple_of_4 w" by simp_all
    define sc where "sc = var_scope g"
    define p where "p = kernel_paddings kh kw"
    define a where "a = conv_args (Some (num_filters * 4)) (Seq (kernel_list kernel_size)) 1"
    define scr where "scr = sc @ [''encoder'', ''residual_blocks'']"
    define x2 where "x2 = encoder_2 sc num_filters (kernel_list kernel_size) p images"
    define x3 where "x3 = blocks_net scr p a (nat num_resnet_blocks) x2"
    define pre where "pre = encoder_ops sc num_filters (kernel_list kernel_size) p images
        @ blocks_ops scr p a (nat num_resnet_blocks) x2"
    define g1 where "g1 = g\<lparr>graph_ops := graph_ops g @ pre,
        var_scope := sc @ [''encoder'', ''decoder'', ''decoder1'']\<rparr>"
    have pre: "norms_ok pre" by (simp add: pre_def)
    obtain r1 new1 where u1: "?up x3 (num_filters * 2) [2, 2] g1 =
        (r1, g1\<lparr>graph_ops := graph_ops g1 @ new1\<rparr>)" and n1: "norms_ok new1"
      using upsample_norms_ok [of x3 "num_filters * 2" "method" "pad_mode" g1] by blast
    show ?thesis
    proof (cases r1)
      case (Inl e)
      have "graph_ops (snd ?r) = graph_ops g @ pre @ new1"
        unfolding generator_eq [where up = ?up, OF assms h w k]
        using u1 Inl
        by (simp add: Let_def sc_def p_def a_def scr_def x2_def x3_def pre_def g1_def)
      with pre n1 show ?thesis by simp
    next
      case (Inr d1)
      define g2 where "g2 = g1\<lparr>graph_ops := graph_ops g1 @ new1,
          var_scope := sc @ [''encoder'', ''decoder'', ''decoder2'']\<rparr>"
      obtain r2 new2 where u2: "?up d1 num_filters [2, 2] g2 =
          (r2, g2\<lparr>graph_ops := graph_ops g2 @ new2\<rparr>)" and n2: "norms_ok new2"
        using upsample_norms_ok [of d1 num_filters "method" "pad_mode" g2] by blast
      have "\<exists>out. graph_ops (snd ?r) = graph_ops g @ pre @ new1 @ new2 @ out \<and> norms_ok out"
        unfolding generator_eq [where up = ?up, OF assms h w k]
        using u1 Inr u2
        by (cases r2)
           (simp_all add: Let_def sc_def p_def a_def scr_def x2_def x3_def pre_def g1_def g2_def)
      with pre n1 n2 show ?thesis by auto
    qed
  qed
  then show "\<exists>new. graph_ops (snd ?r) = graph_ops g @ new
          \<and> (\<forall>t \<in> set new. normalization t \<longrightarrow> made_by_instance_norm t)"
    by (auto simp add: norms_ok_def list_all_iff)
qed

subsection \<open>Instance normalization on values\<close>

lemma slice_features_instance_norm:
  assumes "n < length v"
    and "\<forall>row \<in> set (v ! n). \<forall>pixel \<in> set row. c < length pixel"
  shows "slice (features_instance_norm center scale epsilon beta gamma v) n c =
     map (\<lambda>a. (if scale then gamma c else 1)
                * ((a - mean (slice v n c)) / sqrt (variance (slice v n c) + epsilon))
              + (if center then beta c else 0))
       (slice v n c)"
proof -
  define f where "f = (\<lambda>a. (if scale then gamma c else 1)
                * ((a - mean (slice v n c)) / sqrt (variance (slice v n c) + epsilon))
              + (if center then beta c else 0))"
  define out where "out = (\<lambda>pixel. map (\<lambda>c.
            (if scale then gamma c else 1)
              * ((pixel ! c - mean (slice v n c)) / sqrt (variance (slice v n c) + epsilon))
            + (if center then beta c else 0))
          [0 ..< length pixel])"
  have row: "features_instance_norm center scale epsilon beta gamma v ! n = map (map out) (v ! n)"
    using assms(1) by (simp add: features_instance_norm_def out_def)
  have px: "out pixel ! c = f (pixel ! c)" if "c < length pixel" for pixel
    using that by (simp add: out_def f_def)
  have inner: "map (\<lambda>pixel. out pixel ! c) r = map (\<lambda>pixel. f (pixel ! c)) r"
    if "r \<in> set (v ! n)" for r
  proof (rule map_cong [OF refl])
    fix pixel assume "pixel \<in> set r"
    with that assms(2) have "c < length pixel" by blast
    then show "out pixel ! c = f (pixel ! c)" by (rule px)
  qed
  have rows: "map (map (\<lambda>pixel. out pixel ! c)) (v ! n) =
      map (map (\<lambda>pixel. f (pixel ! c))) (v ! n)"
  proof (rule map_cong [OF refl])
    fix r assume "r \<in> set (v ! n)"
    then show "map (\<lambda>pixel. out pixel ! c) r = map (\<lambda>pixel. f (pixel ! c)) r"
      by (rule inner)
  qed
  have "slice (features_instance_norm center scale epsilon beta gamma v) n c =
      concat (map (map (\<lambda>pixel. out pixel ! c)) (v ! n))"
    unfolding slice_def row by (simp add: comp_def)
  also have "\<dots> = concat (map (map (\<lambda>pixel. f (pixel ! c))) (v ! n))"
    by (simp only: rows)
  also have "\<dots> = map f (slice v n c)"
    by (simp add: slice_def map_concat comp_def)
  finally show ?thesis by (simp add: f_def)
qed

lemma sum_list_affine:
  "sum_list (map (\<lambda>x. p * x + q) xs) = p * sum_list xs + q * real (length xs)"
  by (induction xs) (simp_all add: algebra_simps)

lemma mean_normalized:
  assumes "xs \<noteq> []"
  shows "mean (map (\<lambda>a. k * ((a - mean xs) / s) + b) xs) = b"
proof -
  have eq: "(\<lambda>a. k * ((a - mean xs) / s) + b) = (\<lambda>a. (k / s) * a + (b - k * mean xs / s))"
    by (intro ext) (simp add: diff_divide_distrib algebra_simps)
  have len: "real (length xs) \<noteq> 0" using assms by simp
  have "sum_list (map (\<lambda>a. k * ((a - mean xs) / s) + b) xs) =
      (k / s) * sum_list xs + (b - k * mean xs / s) * real (length xs)"
    unfolding eq by (rule sum_list_affine)
  also have "\<dots> = b * real (length xs)"
    using len by (simp add: mean_def algebra_simps)
  finally show ?thesis
    using len by (simp add: mean_def)
qed

section \<open>The claims\<close>

subsection \<open>The topology\<close>



subsection \<open>Residual blocks\<close>

text \<open>
  C2. For every block index \<open>i\<close> with \<open>0 \<le> i < num_resnet_blocks\<close>, the end point
  \<open>resnet_block_i\<close> of a generator that returns is the block's input plus the residual
  path applied to that same input. The input of block \<open>0\<close> is the end point
  \<open>encoder_2\<close>, the input of a later block is the end point of the block before it. The
  path is reflect-pad, conv2d, instance-norm, ReLU, reflect-pad, conv2d, instance-norm,
  with \<open>4 * num_filters\<close> filters, stride 1 and the block's own variable scope.
\<close>

theorem residual_block_output:
  assumes "shape_of images = Some [b, h, w, c]"
    and "kernel_list kernel_size = kh # kw # rest"
    and "cyclegan_generator_resnet images num_resnet_blocks num_filters upsample_fn kernel_size
           tanh_linear_slope g = (Inr (predictions, end_points), g')"
    and "int i < num_resnet_blocks"
  shows "\<exists>x. (if i = 0 then end_points ''encoder_2''
              else end_points (''resnet_block_'' @ decimal (i - 1))) = Some x
           \<and> end_points (''resnet_block_'' @ decimal i) =
               Some (Add x (residual_path
                   (var_scope g @ [''encoder'', ''residual_blocks'', ''block_'' @ decimal i])
                   (kernel_paddings kh kw)
                   (conv_args (Some (num_filters * 4)) (Seq (kernel_list kernel_size)) 1) x))"
proof -
  define sc where "sc = var_scope g @ [''encoder'', ''residual_blocks'']"
  define p where "p = kernel_paddings kh kw"
  define a where "a = conv_args (Some (num_filters * 4)) (Seq (kernel_list kernel_size)) 1"
  define x2 where "x2 = encoder_2 (var_scope g) num_filters (kernel_list kernel_size) p images"
  define n where "n = nat num_resnet_blocks"
  define ep0 where "ep0 = [''encoder_0'' \<mapsto> encoder_0 (var_scope g) num_filters images,
      ''encoder_1'' \<mapsto> encoder_1 (var_scope g) num_filters (kernel_list kernel_size) p images,
      ''encoder_2'' \<mapsto> x2]"
  have i: "i < n" using assms(4) by (simp add: n_def)
  have h: "\<not> not_multiple_of_4 h"
    using generator_height_error [OF assms(1)] assms(3) by auto
  have w: "\<not> not_multiple_of_4 w"
    using generator_width_error [OF assms(1) h] assms(3) by auto
  have "\<exists>d1 d2 lg. end_points = (blocks_end_points sc p a n x2 ep0)
      (''decoder1'' \<mapsto> d1, ''decoder2'' \<mapsto> d2, ''logits'' \<mapsto> lg,
       ''predictions'' \<mapsto> predictions)"
    using assms(3)
    unfolding generator_eq [OF assms(1) h w assms(2)]
    by (auto simp add: Let_def sc_def p_def a_def x2_def n_def ep0_def
        split: prod.splits sum.splits)
  then obtain d1 d2 lg where ep: "end_points = (blocks_end_points sc p a n x2 ep0)
      (''decoder1'' \<mapsto> d1, ''decoder2'' \<mapsto> d2, ''logits'' \<mapsto> lg,
       ''predictions'' \<mapsto> predictions)"
    by blast
  have cur: "end_points (''resnet_block_'' @ decimal i) = Some (blocks_net sc p a (Suc i) x2)"
    using blocks_end_points_block [OF i, of sc p a x2 ep0] by (simp add: ep)
  have prev: "(if i = 0 then end_points ''encoder_2''
       else end_points (''resnet_block_'' @ decimal (i - 1))) = Some (blocks_net sc p a i x2)"
  proof (cases i)
    case 0
    have "blocks_end_points sc p a n x2 ep0 ''encoder_2'' = ep0 ''encoder_2''"
      by (rule blocks_end_points_other) simp
    then show ?thesis using 0 by (simp add: ep ep0_def)
  next
    case (Suc j)
    with i have "j < n" by simp
    from blocks_end_points_block [OF this, of sc p a x2 ep0] show ?thesis
      using Suc by (simp add: ep)
  qed
  show ?thesis
    using prev cur by (simp add: sc_def p_def a_def)
qed

text \<open>
  The theorem at block 1 of a generator with two blocks, four filters and the default
  arguments, on images of static shape \<open>[None, 8, 12, 3]\<close>.
\<close>

theorem residual_block_output_witness:
  "\<exists>p ep g'.
     cyclegan_generator_resnet example_images 2 4 cyclegan_upsample_default (Scalar 3) 0
       empty_state = (Inr (p, ep), g')
     \<and> (\<exists>x. ep ''resnet_block_0'' = Some x
          \<and> ep ''resnet_block_1'' =
              Some (Add x (residual_path [''encoder'', ''residual_blocks'', ''block_1'']
                 [(0, 0), (1, 1), (1, 1), (0, 0)] (conv_args (Some 16) (Seq [3, 3]) 1) x)))"
proof -
  have shape: "shape_of example_images = Some [None, Some 8, Some 12, Some 3]"
    by (simp add: example_images_def)
  have kernel: "kernel_list (Scalar 3) = 3 # 3 # []"
    by (simp add: kernel_list_def)
  have h: "\<not> not_multiple_of_4 (Some 8)" and w: "\<not> not_multiple_of_4 (Some 12)"
    by (simp_all add: not_multiple_of_4_def)
  obtain p ep g' where run:
    "cyclegan_generator_resnet example_images 2 4 cyclegan_upsample_default (Scalar 3) 0
       empty_state = (Inr (p, ep), g')"
    using generator_returns [where up = cyclegan_upsample_default,
        OF shape h w kernel upsample_default_returns] by blast
  have one: "decimal (Suc 0) = ''1''" and zero: "decimal 0 = ''0''"
    by (simp_all add: decimal.simps digit_char_def)
  have "int (Suc 0) < 2" by simp
  from residual_block_output [OF shape kernel run this]
  have "\<exists>x. ep ''resnet_block_0'' = Some x
          \<and> ep ''resnet_block_1'' =
              Some (Add x (residual_path [''encoder'', ''residual_blocks'', ''block_1'']
                 [(0, 0), (1, 1), (1, 1), (0, 0)] (conv_args (Some 16) (Seq [3, 3]) 1) x))"
    by (simp add: one zero empty_state_def kernel_paddings_def kernel_list_def)
  with run show ?thesis by blast
qed

subsection \<open>The checks of height and width\<close>




subsection \<open>The shape of the output\<close>



subsection \<open>The upsampling method\<close>

text \<open>
  C5. The arguments are those the documentation asks for: a net of rank 4 with a known,
  positive number of channels, strides of two entries from 1 to \<open>2^31 - 1\<close>, at least one
  output filter and a padding mode of \<^verbatim>\<open>tf.pad\<close>. Then \<open>cyclegan_upsample\<close> returns the
  upsampled tensor when the method is one of the three. For \<open>conv2d_transpose\<close> it is
  the transposed 3x3 convolution with these strides, ReLU and the crop \<^verbatim>\<open>[:, 1:, 1:, :]\<close>,
  of static height and width \<open>n * s + max (3 - s) 0 - 1\<close>, which is \<open>2 * n\<close> for stride 2.
  For \<open>nn_upsample_conv\<close> and \<open>bilinear_upsample_conv\<close> it is the resize to the strides
  times the run-time height and width, nearest neighbour or bilinear, then the padding by
  1 in the given mode, the 3x3 convolution, instance normalization and ReLU. The function
  raises \<open>ValueError\<close> if and only if the method is any other value. On that path,
  for any arguments, the graph gains only the three reads of the run-time shape that
  precede the choice of the method: no resize, pad, convolution, normalization or slice
  of the input is made.
\<close>

theorem cyclegan_upsample_method:
  "(shape_of net = Some [b, h, w, Some c] \<and> 0 < c
      \<and> strides = [s0, s1] \<and> 1 \<le> s0 \<and> s0 < 2 ^ 31 \<and> 1 \<le> s1 \<and> s1 < 2 ^ 31
      \<and> 1 \<le> num_outputs
      \<and> (pad_mode = ''CONSTANT'' \<or> pad_mode = ''REFLECT'' \<or> pad_mode = ''SYMMETRIC'') \<longrightarrow>
      (method = ''conv2d_transpose'' \<longrightarrow>
         (\<exists>t. t = Crop11 (Relu (Conv2DTranspose (var_scope g @ [''upconv'']) net
                     (deconv_args num_outputs strides)))
            \<and> cyclegan_upsample net num_outputs strides method pad_mode g =
                (Inr t, g\<lparr>graph_ops := graph_ops g
                    @ [Shape net, GetItem (Shape net) 1, GetItem (Shape net) 2,
                       Conv2DTranspose (var_scope g @ [''upconv'']) net
                         (deconv_args num_outputs strides),
                       Relu (Conv2DTranspose (var_scope g @ [''upconv'']) net
                         (deconv_args num_outputs strides)),
                       t]\<rparr>)
            \<and> shape_of t =
                Some [b, map_option (\<lambda>n. n - 1) (deconv_dim 3 s0 h),
                      map_option (\<lambda>n. n - 1) (deconv_dim 3 s1 w), Some (nat num_outputs)]
            \<and> (s0 = 2 \<and> s1 = 2 \<longrightarrow>
                 shape_of t = Some [b, double_dim h, double_dim w, Some (nat num_outputs)])))
      \<and> (method = ''nn_upsample_conv'' \<longrightarrow>
         (\<exists>t. t = Relu (InstanceNorm (var_scope g @ [''upconv''])
                     (Conv2D (var_scope g @ [''upconv''])
                        (Pad (Resize net (ScalarMul s0 (GetItem (Shape net) 1))
                                (ScalarMul s1 (GetItem (Shape net) 2)) NEAREST_NEIGHBOR)
                           [(0, 0), (1, 1), (1, 1), (0, 0)] pad_mode)
                        (conv_args (Some num_outputs) (Scalar 3) 1))
                     True True 0.001)
            \<and> fst (cyclegan_upsample net num_outputs strides method pad_mode g) = Inr t
            \<and> last (graph_ops (snd (cyclegan_upsample net num_outputs strides method
                        pad_mode g))) = t
            \<and> var_scope (snd (cyclegan_upsample net num_outputs strides method pad_mode g)) =
                var_scope g
            \<and> shape_of t = Some [b, None, None, Some (nat num_outputs)]))
      \<and> (method = ''bilinear_upsample_conv'' \<longrightarrow>
         (\<exists>t. t = Relu (InstanceNorm (var_scope g @ [''upconv''])
                     (Conv2D (var_scope g @ [''upconv''])
                        (Pad (Resize net (ScalarMul s0 (GetItem (Shape net) 1))
                                (ScalarMul s1 (GetItem (Shape net) 2)) BILINEAR)
                           [(0, 0), (1, 1), (1, 1), (0, 0)] pad_mode)
                        (conv_args (Some num_outputs) (Scalar 3) 1))
                     True True 0.001)
            \<and> fst (cyclegan_upsample net num_outputs strides method pad_mode g) = Inr t
            \<and> last (graph_ops (snd (cyclegan_upsample net num_outputs strides method
                        pad_mode g))) = t
            \<and> var_scope (snd (cyclegan_upsample net num_outputs strides method pad_mode g)) =
                var_scope g
            \<and> shape_of t = Some [b, None, None, Some (nat num_outputs)]))
      \<and> ((\<exists>msg. fst (cyclegan_upsample net num_outputs strides method pad_mode g)
                 = Inl (ValueError msg)) \<longleftrightarrow> \<not> known_method method))
   \<and> (\<not> known_method method \<longrightarrow>
        cyclegan_upsample net num_outputs strides method pad_mode g =
          (Inl (ValueError (''Unknown method: ['' @ method @ '']'')),
           g\<lparr>graph_ops := graph_ops g
               @ [Shape net, GetItem (Shape net) 1, GetItem (Shape net) 2]\<rparr>))"
proof (intro conjI impI)
  assume a: "shape_of net = Some [b, h, w, Some c] \<and> 0 < c
      \<and> strides = [s0, s1] \<and> 1 \<le> s0 \<and> s0 < 2 ^ 31 \<and> 1 \<le> s1 \<and> s1 < 2 ^ 31
      \<and> 1 \<le> num_outputs
      \<and> (pad_mode = ''CONSTANT'' \<or> pad_mode = ''REFLECT'' \<or> pad_mode = ''SYMMETRIC'')"
  then have net: "shape_of net = Some [b, h, w, Some c]" and st: "strides = [s0, s1]"
    and s: "1 \<le> s0" "1 \<le> s1" and f: "1 \<le> num_outputs"
    by simp_all
  assume m: "method = ''conv2d_transpose''"
  have sh: "shape_of (Crop11 (Relu (Conv2DTranspose (var_scope g @ [''upconv'']) net
                     (deconv_args num_outputs [s0, s1])))) =
                Some [b, map_option (\<lambda>n. n - 1) (deconv_dim 3 s0 h),
                      map_option (\<lambda>n. n - 1) (deconv_dim 3 s1 w), Some (nat num_outputs)]"
    by (rule shape_transposed [OF net s f])
  have d: "map_option (\<lambda>n. n - Suc 0) (deconv_dim 3 2 d) = double_dim d" for d
    by (cases d) (simp_all add: deconv_dim_def double_dim_def)
  have sh2: "s0 = 2 \<and> s1 = 2 \<longrightarrow>
      shape_of (Crop11 (Relu (Conv2DTranspose (var_scope g @ [''upconv'']) net
                     (deconv_args num_outputs [s0, s1])))) =
      Some [b, double_dim h, double_dim w, Some (nat num_outputs)]"
    using sh by (auto simp add: d simp del: shape_of.simps)
  show "\<exists>t. t = Crop11 (Relu (Conv2DTranspose (var_scope g @ [''upconv'']) net
                     (deconv_args num_outputs strides)))
            \<and> cyclegan_upsample net num_outputs strides method pad_mode g =
                (Inr t, g\<lparr>graph_ops := graph_ops g
                    @ [Shape net, GetItem (Shape net) 1, GetItem (Shape net) 2,
                       Conv2DTranspose (var_scope g @ [''upconv'']) net
                         (deconv_args num_outputs strides),
                       Relu (Conv2DTranspose (var_scope g @ [''upconv'']) net
                         (deconv_args num_outputs strides)),
                       t]\<rparr>)
            \<and> shape_of t =
                Some [b, map_option (\<lambda>n. n - 1) (deconv_dim 3 s0 h),
                      map_option (\<lambda>n. n - 1) (deconv_dim 3 s1 w), Some (nat num_outputs)]
            \<and> (s0 = 2 \<and> s1 = 2 \<longrightarrow>
                 shape_of t = Some [b, double_dim h, double_dim w, Some (nat num_outputs)])"
    unfolding m st upsample_transpose_eq
    using sh sh2 by (simp add: transpose_ops_def shape_reads_def del: shape_of.simps)
next
  assume a: "shape_of net = Some [b, h, w, Some c] \<and> 0 < c
      \<and> strides = [s0, s1] \<and> 1 \<le> s0 \<and> s0 < 2 ^ 31 \<and> 1 \<le> s1 \<and> s1 < 2 ^ 31
      \<and> 1 \<le> num_outputs
      \<and> (pad_mode = ''CONSTANT'' \<or> pad_mode = ''REFLECT'' \<or> pad_mode = ''SYMMETRIC'')"
  then have net: "shape_of net = Some [b, h, w, Some c]" and st: "strides = s0 # s1 # []"
    and f: "1 \<le> num_outputs"
    by simp_all
  assume m: "method = ''nn_upsample_conv''"
  then have m': "method = ''nn_upsample_conv'' \<or> method = ''bilinear_upsample_conv''" by simp
  have rm: "resize_method_of method = NEAREST_NEIGHBOR"
    by (simp add: m resize_method_of_def)
  show "\<exists>t. t = Relu (InstanceNorm (var_scope g @ [''upconv''])
                     (Conv2D (var_scope g @ [''upconv''])
                        (Pad (Resize net (ScalarMul s0 (GetItem (Shape net) 1))
                                (ScalarMul s1 (GetItem (Shape net) 2)) NEAREST_NEIGHBOR)
                           [(0, 0), (1, 1), (1, 1), (0, 0)] pad_mode)
                        (conv_args (Some num_outputs) (Scalar 3) 1))
                     True True 0.001)
            \<and> fst (cyclegan_upsample net num_outputs strides method pad_mode g) = Inr t
            \<and> last (graph_ops (snd (cyclegan_upsample net num_outputs strides method
                        pad_mode g))) = t
            \<and> var_scope (snd (cyclegan_upsample net num_outputs strides method pad_mode g)) =
                var_scope g
            \<and> shape_of t = Some [b, None, None, Some (nat num_outputs)]"
    unfolding upsample_resize_eq [OF m' st] rm
    using shape_resized [OF net f, of "var_scope g @ [''upconv'']" s0 s1 NEAREST_NEIGHBOR pad_mode]
    by (simp add: resize_ops_def resized_def normed_def spatial_pad_1_def del: shape_of.simps)
next
  assume a: "shape_of net = Some [b, h, w, Some c] \<and> 0 < c
      \<and> strides = [s0, s1] \<and> 1 \<le> s0 \<and> s0 < 2 ^ 31 \<and> 1 \<le> s1 \<and> s1 < 2 ^ 31
      \<and> 1 \<le> num_outputs
      \<and> (pad_mode = ''CONSTANT'' \<or> pad_mode = ''REFLECT'' \<or> pad_mode = ''SYMMETRIC'')"
  then have net: "shape_of net = Some [b, h, w, Some c]" and st: "strides = s0 # s1 # []"
    and f: "1 \<le> num_outputs"
    by simp_all
  assume m: "method = ''bilinear_upsample_conv''"
  then have m': "method = ''nn_upsample_conv'' \<or> method = ''bilinear_upsample_conv''" by simp
  have rm: "resize_method_of method = BILINEAR"
    by (simp add: m resize_method_of_def)
  show "\<exists>t. t = Relu (InstanceNorm (var_scope g @ [''upconv''])
                     (Conv2D (var_scope g @ [''upconv''])
                        (Pad (Resize net (ScalarMul s0 (GetItem (Shape net) 1))
                                (ScalarMul s1 (GetItem (Shape net) 2)) BILINEAR)
                           [(0, 0), (1, 1), (1, 1), (0, 0)] pad_mode)
                        (conv_args (Some num_outputs) (Scalar 3) 1))
                     True True 0.001)
            \<and> fst (cyclegan_upsample net num_outputs strides method pad_mode g) = Inr t
            \<and> last (graph_ops (snd (cyclegan_upsample net num_outputs strides method
                        pad_mode g))) = t
            \<and> var_scope (snd (cyclegan_upsample net num_outputs strides method pad_mode g)) =
                var_scope g
            \<and> shape_of t = Some [b, None, None, Some (nat num_outputs)]"
    unfolding upsample_resize_eq [OF m' st] rm
    using shape_resized [OF net f, of "var_scope g @ [''upconv'']" s0 s1 BILINEAR pad_mode]
    by (simp add: resize_ops_def resized_def normed_def spatial_pad_1_def del: shape_of.simps)
next
  assume a: "shape_of net = Some [b, h, w, Some c] \<and> 0 < c
      \<and> strides = [s0, s1] \<and> 1 \<le> s0 \<and> s0 < 2 ^ 31 \<and> 1 \<le> s1 \<and> s1 < 2 ^ 31
      \<and> 1 \<le> num_outputs
      \<and> (pad_mode = ''CONSTANT'' \<or> pad_mode = ''REFLECT'' \<or> pad_mode = ''SYMMETRIC'')"
  then have st: "strides = s0 # s1 # []" by simp
  show "(\<exists>msg. fst (cyclegan_upsample net num_outputs strides method pad_mode g)
              = Inl (ValueError msg)) \<longleftrightarrow> \<not> known_method method"
  proof (cases "known_method method")
    case False
    then show ?thesis
      by (simp add: upsample_unknown_eq known_method_def)
  next
    case True
    then consider "method = ''conv2d_transpose''"
      | "method = ''nn_upsample_conv'' \<or> method = ''bilinear_upsample_conv''"
      by (auto simp: known_method_def)
    then have "\<nexists>msg. fst (cyclegan_upsample net num_outputs strides method pad_mode g)
              = Inl (ValueError msg)"
    proof cases
      case 1
      then show ?thesis by (simp add: upsample_transpose_eq)
    next
      case 2
      from upsample_resize_eq [OF 2 st] show ?thesis by simp
    qed
    with True show ?thesis by simp
  qed
next
  assume "\<not> known_method method"
  then show "cyclegan_upsample net num_outputs strides method pad_mode g =
          (Inl (ValueError (''Unknown method: ['' @ method @ '']'')),
           g\<lparr>graph_ops := graph_ops g
               @ [Shape net, GetItem (Shape net) 1, GetItem (Shape net) 2]\<rparr>)"
    by (simp add: upsample_unknown_eq known_method_def shape_reads_def)
qed

text \<open>
  The theorem on the example images with strides \<open>[2, 2]\<close> and four filters: the
  default method, which doubles height and width, the nearest-neighbour method, and a
  method that is not one of the three.
\<close>

theorem cyclegan_upsample_method_witness:
  "cyclegan_upsample example_images 4 [2, 2] ''conv2d_transpose'' ''REFLECT'' empty_state =
     (Inr (Crop11 (Relu (Conv2DTranspose [''upconv''] example_images (deconv_args 4 [2, 2])))),
      \<lparr>var_scope = [],
       graph_ops = [Shape example_images, GetItem (Shape example_images) 1,
                    GetItem (Shape example_images) 2,
                    Conv2DTranspose [''upconv''] example_images (deconv_args 4 [2, 2]),
                    Relu (Conv2DTranspose [''upconv''] example_images (deconv_args 4 [2, 2])),
                    Crop11 (Relu (Conv2DTranspose [''upconv''] example_images
                      (deconv_args 4 [2, 2])))]\<rparr>)
   \<and> shape_of (Crop11 (Relu (Conv2DTranspose [''upconv''] example_images
         (deconv_args 4 [2, 2])))) = Some [None, Some 16, Some 24, Some 4]
   \<and> fst (cyclegan_upsample example_images 4 [2, 2] ''nn_upsample_conv'' ''REFLECT''
          empty_state) =
       Inr (Relu (InstanceNorm [''upconv'']
              (Conv2D [''upconv'']
                 (Pad (Resize example_images (ScalarMul 2 (GetItem (Shape example_images) 1))
                         (ScalarMul 2 (GetItem (Shape example_images) 2)) NEAREST_NEIGHBOR)
                    [(0, 0), (1, 1), (1, 1), (0, 0)] ''REFLECT'')
                 (conv_args (Some 4) (Scalar 3) 1))
              True True 0.001))
   \<and> (\<nexists>msg. fst (cyclegan_upsample example_images 4 [2, 2] ''conv2d_transpose'' ''REFLECT''
                   empty_state) = Inl (ValueError msg))
   \<and> cyclegan_upsample example_images 4 [2, 2] ''bicubic'' ''REFLECT'' empty_state =
       (Inl (ValueError ''Unknown method: [bicubic]''),
        \<lparr>var_scope = [],
         graph_ops = [Shape example_images, GetItem (Shape example_images) 1,
                      GetItem (Shape example_images) 2]\<rparr>)"
proof -
  have ok: "shape_of example_images = Some [None, Some 8, Some 12, Some 3] \<and> 0 < (3::nat)
      \<and> [2, 2] = [2, 2::int] \<and> 1 \<le> (2::int) \<and> (2::int) < 2 ^ 31
      \<and> 1 \<le> (2::int) \<and> (2::int) < 2 ^ 31 \<and> 1 \<le> (4::int)
      \<and> (''REFLECT'' = ''CONSTANT'' \<or> ''REFLECT'' = ''REFLECT'' \<or> ''REFLECT'' = ''SYMMETRIC'')"
    by (simp add: example_images_def)
  note t = cyclegan_upsample_method [of example_images None "Some 8" "Some 12" 3 "[2, 2]" 2 2 4
      "''REFLECT''" "''conv2d_transpose''" empty_state, THEN conjunct1, THEN mp, OF ok]
  note n = cyclegan_upsample_method [of example_images None "Some 8" "Some 12" 3 "[2, 2]" 2 2 4
      "''REFLECT''" "''nn_upsample_conv''" empty_state, THEN conjunct1, THEN mp, OF ok]
  note u = cyclegan_upsample_method [of example_images None "Some 8" "Some 12" 3 "[2, 2]" 2 2 4
      "''REFLECT''" "''bicubic''" empty_state, THEN conjunct2]
  have dd: "double_dim (Some 8) = Some 16" "double_dim (Some 12) = Some 24" "double_dim None = None"
    by (simp_all add: double_dim_def)
  from t [THEN conjunct1] have first:
    "cyclegan_upsample example_images 4 [2, 2] ''conv2d_transpose'' ''REFLECT'' empty_state =
     (Inr (Crop11 (Relu (Conv2DTranspose [''upconv''] example_images (deconv_args 4 [2, 2])))),
      \<lparr>var_scope = [],
       graph_ops = [Shape example_images, GetItem (Shape example_images) 1,
                    GetItem (Shape example_images) 2,
                    Conv2DTranspose [''upconv''] example_images (deconv_args 4 [2, 2]),
                    Relu (Conv2DTranspose [''upconv''] example_images (deconv_args 4 [2, 2])),
                    Crop11 (Relu (Conv2DTranspose [''upconv''] example_images
                      (deconv_args 4 [2, 2])))]\<rparr>)"
    and second: "shape_of (Crop11 (Relu (Conv2DTranspose [''upconv''] example_images
         (deconv_args 4 [2, 2])))) = Some [None, Some 16, Some 24, Some 4]"
    by (simp_all add: empty_state_def dd deconv_dim_def del: shape_of.simps)
  from n [THEN conjunct2, THEN conjunct1] have third:
    "fst (cyclegan_upsample example_images 4 [2, 2] ''nn_upsample_conv'' ''REFLECT''
          empty_state) =
       Inr (Relu (InstanceNorm [''upconv'']
              (Conv2D [''upconv'']
                 (Pad (Resize example_images (ScalarMul 2 (GetItem (Shape example_images) 1))
                         (ScalarMul 2 (GetItem (Shape example_images) 2)) NEAREST_NEIGHBOR)
                    [(0, 0), (1, 1), (1, 1), (0, 0)] ''REFLECT'')
                 (conv_args (Some 4) (Scalar 3) 1))
              True True 0.001))"
    by (simp add: empty_state_def del: shape_of.simps)
  from t [THEN conjunct2, THEN conjunct2, THEN conjunct2] have fourth:
    "\<nexists>msg. fst (cyclegan_upsample example_images 4 [2, 2] ''conv2d_transpose'' ''REFLECT''
                   empty_state) = Inl (ValueError msg)"
    by (simp add: known_method_def)
  from u have fifth:
    "cyclegan_upsample example_images 4 [2, 2] ''bicubic'' ''REFLECT'' empty_state =
       (Inl (ValueError ''Unknown method: [bicubic]''),
        \<lparr>var_scope = [],
         graph_ops = [Shape example_images, GetItem (Shape example_images) 1,
                      GetItem (Shape example_images) 2]\<rparr>)"
    by (simp add: known_method_def empty_state_def)
  from first second third fourth fifth show ?thesis by blast
qed

subsection \<open>Instance normalization\<close>

text \<open>
  C6. \<open>_instance_norm(x)\<close> adds one node to the graph: the library's instance
  normalization of \<open>x\<close> with \<open>center\<close> and \<open>scale\<close> set and \<open>epsilon = 0.001\<close>. Every
  normalization node that the generator adds to the graph, with \<open>cyclegan_upsample\<close> of
  any method and padding mode as its upsampling function, is such a node. On values, the
  node normalizes the values of each sample and channel by their own mean and variance,
  with \<open>epsilon = 0.001\<close> under the root, scales them by the learned \<open>gamma\<close> and shifts
  them by the learned \<open>beta\<close> of the channel; the normalized values of a sample and
  channel have mean \<open>beta\<close>.
\<close>

theorem generator_normalization:
  assumes "shape_of images = Some [b, h, w, c]"
  shows "instance_norm x g0 =
           (InstanceNorm (var_scope g0) x True True 0.001,
            g0\<lparr>graph_ops := graph_ops g0 @ [InstanceNorm (var_scope g0) x True True 0.001]\<rparr>)
     \<and> (\<exists>new. graph_ops (snd (cyclegan_generator_resnet images num_resnet_blocks num_filters
                   (\<lambda>net num_outputs strides.
                       cyclegan_upsample net num_outputs strides method pad_mode)
                   kernel_size tanh_linear_slope g)) = graph_ops g @ new
          \<and> (\<forall>t \<in> set new. normalization t \<longrightarrow> made_by_instance_norm t))
     \<and> (n < length v \<and> (\<forall>row \<in> set (v ! n). \<forall>pixel \<in> set row. k < length pixel) \<longrightarrow>
          slice (normalized_values (fst (instance_norm x g0)) beta gamma v) n k =
            map (\<lambda>a. gamma k * ((a - mean (slice v n k)) / sqrt (variance (slice v n k) + 0.001))
                      + beta k)
              (slice v n k)
          \<and> (slice v n k \<noteq> [] \<longrightarrow>
               mean (slice (normalized_values (fst (instance_norm x g0)) beta gamma v) n k) = beta k))"
proof (intro conjI impI)
  show "instance_norm x g0 =
           (InstanceNorm (var_scope g0) x True True 0.001,
            g0\<lparr>graph_ops := graph_ops g0 @ [InstanceNorm (var_scope g0) x True True 0.001]\<rparr>)"
    by (simp add: instance_norm_eq normed_def)
next
  show "\<exists>new. graph_ops (snd (cyclegan_generator_resnet images num_resnet_blocks num_filters
                   (\<lambda>net num_outputs strides.
                       cyclegan_upsample net num_outputs strides method pad_mode)
                   kernel_size tanh_linear_slope g)) = graph_ops g @ new
          \<and> (\<forall>t \<in> set new. normalization t \<longrightarrow> made_by_instance_norm t)"
    by (rule generator_norm_sites [OF assms])
next
  assume a: "n < length v \<and> (\<forall>row \<in> set (v ! n). \<forall>pixel \<in> set row. k < length pixel)"
  have val: "normalized_values (fst (instance_norm x g0)) beta gamma v =
      features_instance_norm True True 0.001 beta gamma v"
    by (simp add: instance_norm_eq normed_def normalized_values_def)
  from a have n: "n < length v"
    and px: "\<forall>row \<in> set (v ! n). \<forall>pixel \<in> set row. k < length pixel"
    by simp_all
  show s: "slice (normalized_values (fst (instance_norm x g0)) beta gamma v) n k =
            map (\<lambda>a. gamma k * ((a - mean (slice v n k)) / sqrt (variance (slice v n k) + 0.001))
                      + beta k)
              (slice v n k)"
    unfolding val slice_features_instance_norm [OF n px] by simp
  assume "slice v n k \<noteq> []"
  then show "mean (slice (normalized_values (fst (instance_norm x g0)) beta gamma v) n k) = beta k"
    unfolding s by (rule mean_normalized)
qed

text \<open>
  The theorem on the example images, whose graph has the normalization node of the input
  stage, and on a tensor of one sample, one row, two columns and two channels.
\<close>

theorem generator_normalization_witness:
  "(\<exists>new t.
     graph_ops (snd (cyclegan_generator_resnet example_images 2 4
         (\<lambda>net num_outputs strides.
             cyclegan_upsample net num_outputs strides ''conv2d_transpose'' ''REFLECT'')
         (Scalar 3) 0 empty_state)) = graph_ops empty_state @ new
     \<and> t = InstanceNorm [''input'']
           (Conv2D [''input''] (Pad example_images [(0, 0), (3, 3), (3, 3), (0, 0)] ''REFLECT'')
              (conv_args (Some 4) (Scalar 7) 1)) True True 0.001
     \<and> t \<in> set new \<and> normalization t \<and> made_by_instance_norm t)
   \<and> slice example_values 0 0 = [1, 3]
   \<and> slice (normalized_values (fst (instance_norm example_images empty_state))
         (\<lambda>c. 0) (\<lambda>c. 1) example_values) 0 0 =
       [(1 - 2) / sqrt (1 + 0.001), (3 - 2) / sqrt (1 + 0.001)]
   \<and> mean (slice (normalized_values (fst (instance_norm example_images empty_state))
         (\<lambda>c. 0) (\<lambda>c. 1) example_values) 0 0) = 0"
proof -
  let ?up = "\<lambda>net num_outputs strides.
      cyclegan_upsample net num_outputs strides ''conv2d_transpose'' ''REFLECT''"
  let ?t = "InstanceNorm [''input'']
      (Conv2D [''input''] (Pad example_images [(0, 0), (3, 3), (3, 3), (0, 0)] ''REFLECT'')
         (conv_args (Some 4) (Scalar 7) 1)) True True 0.001"
  have shape: "shape_of example_images = Some [None, Some 8, Some 12, Some 3]"
    by (simp add: example_images_def)
  have kernel: "kernel_list (Scalar 3) = 3 # 3 # []"
    by (simp add: kernel_list_def)
  have h: "\<not> not_multiple_of_4 (Some 8)" and w: "\<not> not_multiple_of_4 (Some 12)"
    by (simp_all add: not_multiple_of_4_def)
  have up: "?up = cyclegan_upsample_default"
    by (intro ext) (simp add: cyclegan_upsample_default_def)
  have sl: "slice example_values 0 0 = [1, 3]"
    by (simp add: slice_def example_values_def)
  have m: "mean [1, 3] = 2" and va: "variance [1, 3] = 1"
    by (simp_all add: mean_def variance_def)
  have rect: "0 < length example_values
      \<and> (\<forall>row \<in> set (example_values ! 0). \<forall>pixel \<in> set row. 0 < length pixel)"
    by (simp add: example_values_def)
  note inst = generator_normalization [OF shape, of example_images empty_state 2 4
      "''conv2d_transpose''" "''REFLECT''" "Scalar 3" 0 empty_state 0 example_values 0
      "\<lambda>c. 0" "\<lambda>c. 1"]
  from inst obtain new where new: "graph_ops (snd (cyclegan_generator_resnet example_images 2 4 ?up
         (Scalar 3) 0 empty_state)) = graph_ops empty_state @ new"
    and ok: "\<forall>t \<in> set new. normalization t \<longrightarrow> made_by_instance_norm t"
    by blast
  have "?t \<in> set (graph_ops (snd (cyclegan_generator_resnet example_images 2 4 ?up
         (Scalar 3) 0 empty_state)))"
    unfolding up generator_default_eq [OF shape h w kernel]
    by (simp add: Let_def empty_state_def encoder_ops_def piece_defs normed_def spatial_pad_3_def)
  then have mem: "?t \<in> set new"
    unfolding new by (simp add: empty_state_def)
  have n: "normalization ?t" by (simp add: normalization_def)
  with ok mem have "made_by_instance_norm ?t" by blast
  with new mem n have sites: "\<exists>new t.
     graph_ops (snd (cyclegan_generator_resnet example_images 2 4 ?up (Scalar 3) 0 empty_state))
       = graph_ops empty_state @ new
     \<and> t = ?t \<and> t \<in> set new \<and> normalization t \<and> made_by_instance_norm t"
    by blast
  note part3 = inst [THEN conjunct2, THEN conjunct2, THEN mp, OF rect]
  from part3 [THEN conjunct1] have out:
    "slice (normalized_values (fst (instance_norm example_images empty_state))
         (\<lambda>c. 0) (\<lambda>c. 1) example_values) 0 0 =
       [(1 - 2) / sqrt (1 + 0.001), (3 - 2) / sqrt (1 + 0.001)]"
    by (simp add: sl m va)
  from part3 [THEN conjunct2] have centred:
    "mean (slice (normalized_values (fst (instance_norm example_images empty_state))
         (\<lambda>c. 0) (\<lambda>c. 1) example_values) 0 0) = 0"
    by (simp add: sl)
  from sites sl out centred show ?thesis by blast
qed

subsection \<open>The state of the framework\<close>

text \<open>
  C7. The generator is not a function of its arguments alone: a call reads and changes
  the state of the framework. With \<open>cyclegan_upsample\<close> of any method as its upsampling
  function, on images of rank 4, a call reads the variable scope in force: every
  convolution and normalization that it adds is made under that scope. It changes the
  graph by appending its nodes after those that were there, which stay as they were, and
  it leaves the variable scope as it found it.
\<close>

theorem generator_state:
  assumes "shape_of images = Some [b, h, w, c]"
  shows
    "(\<exists>new.
        graph_ops (snd (cyclegan_generator_resnet images num_resnet_blocks num_filters
            (\<lambda>net num_outputs strides.
                cyclegan_upsample net num_outputs strides method pad_mode)
            kernel_size tanh_linear_slope g)) = graph_ops g @ new
        \<and> (\<forall>t \<in> set new. made_under (var_scope g) t))
     \<and> var_scope (snd (cyclegan_generator_resnet images num_resnet_blocks num_filters
            (\<lambda>net num_outputs strides.
                cyclegan_upsample net num_outputs strides method pad_mode)
            kernel_size tanh_linear_slope g)) = var_scope g"
proof -
  let ?gen = "cyclegan_generator_resnet images num_resnet_blocks num_filters
       (\<lambda>net num_outputs strides. cyclegan_upsample net num_outputs strides method pad_mode)
       kernel_size tanh_linear_slope"
  obtain r new where f: "\<And>g0. var_scope g0 = var_scope g \<Longrightarrow>
      ?gen g0 = (r, g0\<lparr>graph_ops := graph_ops g0 @ new\<rparr>)"
    and u: "all_under (var_scope g) new"
    using generator_frame [OF assms, of "var_scope g" num_resnet_blocks num_filters
        "method" "pad_mode" kernel_size tanh_linear_slope] by blast
  have a: "graph_ops (snd (?gen g)) = graph_ops g @ new"
    using f [of g] by simp
  have b: "\<forall>t \<in> set new. made_under (var_scope g) t"
    using u by (simp add: all_under_def list_all_iff)
  have c: "var_scope (snd (?gen g)) = var_scope g"
    using f [of g] by simp
  from a b c show ?thesis by blast
qed

text \<open>
  The theorem on the example images, in a state whose scope is \<open>outer\<close> and whose graph
  holds a node already: the convolution of the input stage is made under \<open>outer\<close>.
\<close>

theorem generator_state_witness:
  "\<exists>new.
     graph_ops (snd (cyclegan_generator_resnet example_images 2 4
        (\<lambda>net num_outputs strides.
            cyclegan_upsample net num_outputs strides ''conv2d_transpose'' ''REFLECT'')
        (Scalar 3) 0 \<lparr>var_scope = [''outer''], graph_ops = [example_images]\<rparr>)) =
       example_images # new
     \<and> Conv2D [''outer'', ''input'']
           (Pad example_images [(0, 0), (3, 3), (3, 3), (0, 0)] ''REFLECT'')
           (conv_args (Some 4) (Scalar 7) 1) \<in> set new
     \<and> made_under [''outer'']
          (Conv2D [''outer'', ''input'']
             (Pad example_images [(0, 0), (3, 3), (3, 3), (0, 0)] ''REFLECT'')
             (conv_args (Some 4) (Scalar 7) 1))
     \<and> var_scope (snd (cyclegan_generator_resnet example_images 2 4
        (\<lambda>net num_outputs strides.
            cyclegan_upsample net num_outputs strides ''conv2d_transpose'' ''REFLECT'')
        (Scalar 3) 0 \<lparr>var_scope = [''outer''], graph_ops = [example_images]\<rparr>)) = [''outer'']"
proof -
  let ?up = "\<lambda>net num_outputs strides.
      cyclegan_upsample net num_outputs strides ''conv2d_transpose'' ''REFLECT''"
  let ?g = "\<lparr>var_scope = [''outer''], graph_ops = [example_images]\<rparr>"
  let ?t = "Conv2D [''outer'', ''input'']
      (Pad example_images [(0, 0), (3, 3), (3, 3), (0, 0)] ''REFLECT'')
      (conv_args (Some 4) (Scalar 7) 1)"
  have shape: "shape_of example_images = Some [None, Some 8, Some 12, Some 3]"
    by (simp add: example_images_def)
  have kernel: "kernel_list (Scalar 3) = 3 # 3 # []"
    by (simp add: kernel_list_def)
  have h: "\<not> not_multiple_of_4 (Some 8)" and w: "\<not> not_multiple_of_4 (Some 12)"
    by (simp_all add: not_multiple_of_4_def)
  have up: "?up = cyclegan_upsample_default"
    by (intro ext) (simp add: cyclegan_upsample_default_def)
  from generator_state [OF shape, of 2 4 "''conv2d_transpose''" "''REFLECT''" "Scalar 3" 0 ?g]
  obtain new where new: "graph_ops (snd (cyclegan_generator_resnet example_images 2 4 ?up
         (Scalar 3) 0 ?g)) = example_images # new"
    and under: "\<forall>t \<in> set new. made_under [''outer''] t"
    and scope: "var_scope (snd (cyclegan_generator_resnet example_images 2 4 ?up
         (Scalar 3) 0 ?g)) = [''outer'']"
    by auto
  have "?t \<in> set (graph_ops (snd (cyclegan_generator_resnet example_images 2 4 ?up
         (Scalar 3) 0 ?g)))"
    unfolding up generator_default_eq [OF shape h w kernel]
    by (simp add: Let_def encoder_ops_def piece_defs spatial_pad_3_def)
  then have mem: "?t \<in> set new"
    unfolding new by (simp add: example_images_def)
  with under have "made_under [''outer''] ?t" by blast
  with new mem scope show ?thesis by blast
qed

text \<open>
  That a call reads and changes no state of the framework does not hold: the graph is
  not what it was, and under another variable scope the result is another.
\<close>

theorem generator_changes_graph:
  "graph_ops (snd (cyclegan_generator_resnet example_images 0 4 cyclegan_upsample_default
       (Scalar 3) 0 empty_state)) \<noteq> graph_ops empty_state
   \<and> fst (cyclegan_generator_resnet example_images 0 4 cyclegan_upsample_default
       (Scalar 3) 0 empty_state) \<noteq>
     fst (cyclegan_generator_resnet example_images 0 4 cyclegan_upsample_default
       (Scalar 3) 0 \<lparr>var_scope = [''other''], graph_ops = []\<rparr>)"
proof -
  have shape: "shape_of example_images = Some [None, Some 8, Some 12, Some 3]"
    by (simp add: example_images_def)
  have kernel: "kernel_list (Scalar 3) = 3 # 3 # []"
    by (simp add: kernel_list_def)
  have h: "\<not> not_multiple_of_4 (Some 8)" and w: "\<not> not_multiple_of_4 (Some 12)"
    by (simp_all add: not_multiple_of_4_def)
  note run = generator_default_eq [OF shape h w kernel, of 0 4 0]
  have changed: "graph_ops (snd (cyclegan_generator_resnet example_images 0 4
      cyclegan_upsample_default (Scalar 3) 0 empty_state)) \<noteq> graph_ops empty_state"
    unfolding run
    by (simp add: Let_def empty_state_def encoder_ops_def piece_defs)
  have here: "\<exists>p ep. fst (cyclegan_generator_resnet example_images 0 4
      cyclegan_upsample_default (Scalar 3) 0 empty_state) = Inr (p, ep)
      \<and> ep ''encoder_0'' = Some (encoder_0 [] 4 example_images)"
    unfolding run
    by (simp add: Let_def empty_state_def)
  have there: "\<exists>p ep. fst (cyclegan_generator_resnet example_images 0 4
      cyclegan_upsample_default (Scalar 3) 0 \<lparr>var_scope = [''other''], graph_ops = []\<rparr>)
        = Inr (p, ep)
      \<and> ep ''encoder_0'' = Some (encoder_0 [''other''] 4 example_images)"
    unfolding run
    by (simp add: Let_def)
  have differ: "encoder_0 [] 4 example_images \<noteq> encoder_0 [''other''] 4 example_images"
    by (simp add: encoder_0_def piece_defs normed_def)
  from here there differ have "fst (cyclegan_generator_resnet example_images 0 4
      cyclegan_upsample_default (Scalar 3) 0 empty_state) \<noteq>
     fst (cyclegan_generator_resnet example_images 0 4 cyclegan_upsample_default
       (Scalar 3) 0 \<lparr>var_scope = [''other''], graph_ops = []\<rparr>)"
    by auto
  with changed show ?thesis by simp
qed

end
